theory Spec2Isabelle
  imports Main "HOL-Library.Word" "HOL-Library.Char_ord" "HOL-Library.List_Lexorder"
begin

unbundle bit_operations_syntax

section \<open>The watch-folder runtime of package folderwatch\<close>

text \<open>
  A shallow embedding of the Go package \<^verbatim>\<open>folderwatch\<close> (the service that owns one
  filesystem watch per registered folder, probes discovered files for stability and
  imports them as transcription jobs) and of the watched-folder repository it uses.
  Go's \<^verbatim>\<open>uint\<close> identifiers are \<open>nat\<close> (the code never computes with them), the
  \<^verbatim>\<open>int64\<close> sizes and nanosecond timestamps are \<open>int\<close> (they are only compared, or
  advanced by sleeps of a second), and the event bit mask of fsnotify is a 32-bit word.
\<close>

subsection \<open>Errors\<close>

text \<open>
  Go errors are values. The sentinels of the package, \<^verbatim>\<open>os.ErrNotExist\<close> and
  \<^verbatim>\<open>gorm.ErrRecordNotFound\<close> are constructors; \<open>Other msg\<close> is an error made by
  \<^verbatim>\<open>errors.New\<close>, by \<^verbatim>\<open>fmt.Errorf\<close> without \<^verbatim>\<open>%w\<close>, or by a library;
  \<open>Wrapped pre e post\<close> is \<^verbatim>\<open>fmt.Errorf(pre + "%w" + post, e)\<close>.
\<close>

datatype error =
    ErrFolderNotFound
  | ErrFolderAlreadyExists
  | ErrInvalidFolderPath
  | ErrNotExist
  | ErrRecordNotFound
  | Other string
  | Wrapped string error string

fun Error :: "error \<Rightarrow> string" where
  "Error ErrFolderNotFound = ''watched folder not found''"
| "Error ErrFolderAlreadyExists = ''folder is already being watched''"
| "Error ErrInvalidFolderPath = ''invalid folder path''"
| "Error ErrNotExist = ''file does not exist''"
| "Error ErrRecordNotFound = ''record not found''"
| "Error (Other msg) = msg"
| "Error (Wrapped pre e post) = pre @ Error e @ post"

text \<open>\<^verbatim>\<open>errors.Is\<close>: the target is the error itself or is reached by unwrapping.\<close>

fun errors_Is :: "error \<Rightarrow> error \<Rightarrow> bool" where
  "errors_Is (Wrapped pre e post) target =
     (Wrapped pre e post = target \<or> errors_Is e target)"
| "errors_Is e target = (e = target)"

text \<open>
  The \<^verbatim>\<open>%q\<close> verb of \<^verbatim>\<open>fmt\<close>: the string in double quotes. The escapes that
  \<^verbatim>\<open>strconv.Quote\<close> writes for quotes, backslashes and unprintable characters only
  change the text of a message and are left out.
\<close>

definition fmt_q :: "string \<Rightarrow> string" where
  "fmt_q s = [CHR 0x22] @ s @ [CHR 0x22]"

subsection \<open>Constants\<close>

text \<open>Durations are nanoseconds, as \<^verbatim>\<open>time.Duration\<close> is.\<close>

definition second :: int where
  "second = 1000000000"

definition fileDebounceDelay :: int where
  "fileDebounceDelay = 2 * second"

definition stabilityInterval :: int where
  "stabilityInterval = 1 * second"

definition stabilityChecks :: nat where
  "stabilityChecks = 3"

definition minimumAudioBytes :: int where
  "minimumAudioBytes = 1"

subsection \<open>Data model\<close>

text \<open>
  Of a transcription job, a user and a transcription profile the records keep the fields
  that the service reads or writes. The statuses \<^verbatim>\<open>models.StatusUploaded\<close> and
  \<^verbatim>\<open>models.StatusPending\<close> are the two the service assigns; \<open>StatusOther\<close> stands
  for every other status a job can have.
\<close>

record WhisperXParams =
  Diarize :: bool
  Settings :: string

datatype JobStatus = StatusUploaded | StatusPending | StatusOther string

record TranscriptionJob =
  ID :: string
  AudioPath :: string
  Status :: JobStatus
  Title :: "string option"
  Parameters :: WhisperXParams
  Diarization :: bool

record TranscriptionProfile =
  Parameters :: WhisperXParams

record User =
  AutoTranscriptionEnabled :: bool
  DefaultProfileID :: "string option"

record WatchedFolder =
  ID :: nat
  UserID :: nat
  Path :: string
  Recursive :: bool
  Enabled :: bool
  CreatedAt :: int
  UpdatedAt :: int

record runtimeStatus =
  Active :: bool
  LastRuntimeError :: string
  LastImportedAt :: "int option"
  LastImportedFile :: string

text \<open>
  A \<^verbatim>\<open>FolderView\<close> has the four fields of a \<^verbatim>\<open>runtimeStatus\<close> under the same names
  and the folder itself, so it is the record extended by \<open>Folder\<close>.
\<close>

record FolderView = runtimeStatus +
  Folder :: WatchedFolder

record fileSignature =
  Size :: int
  ModUnix :: int

text \<open>What \<^verbatim>\<open>os.Stat\<close> reports of a path: \<^verbatim>\<open>IsDir()\<close>, \<^verbatim>\<open>Size()\<close> and
  \<^verbatim>\<open>ModTime().UnixNano()\<close>.\<close>

record FileInfo =
  info_IsDir :: bool
  info_Size :: int
  info_ModTime :: int

text \<open>The zero value of a status, which a Go map returns for a missing key.\<close>

definition zeroStatus :: runtimeStatus where
  "zeroStatus = \<lparr>Active = False, LastRuntimeError = [], LastImportedAt = None,
     LastImportedFile = []\<rparr>"

text \<open>An fsnotify event: the path and the bit mask of operations.\<close>

record Event =
  Name :: string
  Op :: "32 word"

definition fsnotify_Create :: "32 word" where
  "fsnotify_Create = push_bit 0 1"

definition fsnotify_Write :: "32 word" where
  "fsnotify_Write = push_bit 1 1"

definition fsnotify_Remove :: "32 word" where
  "fsnotify_Remove = push_bit 2 1"

definition fsnotify_Rename :: "32 word" where
  "fsnotify_Rename = push_bit 3 1"

definition fsnotify_Chmod :: "32 word" where
  "fsnotify_Chmod = push_bit 4 1"

text \<open>What \<^verbatim>\<open>filepath.WalkDir\<close> hands to its callback for one entry.\<close>

record dirEntry =
  entry_path :: string
  entry_IsDir :: bool
  entry_err :: "error option"

subsection \<open>The environment\<close>

text \<open>
  What the operating system, the Go libraries and the collaborators behind interfaces
  answer is not in the package; it is a parameter of the model. \<open>os_Stat\<close> depends on
  the time of the call, since other processes write the watched files. The database is
  reachable or not for the length of one operation of the service (\<open>db_error\<close> is the
  message of the failure when it is not).
\<close>

record env =
  os_Stat :: "int \<Rightarrow> string \<Rightarrow> error + FileInfo"
  strings_TrimSpace :: "string \<Rightarrow> string"
  unicode_ToLower :: "string \<Rightarrow> string"
  filepath_Abs :: "string \<Rightarrow> error + string"
  filepath_Clean :: "string \<Rightarrow> string"
  filepath_Join :: "string \<Rightarrow> string \<Rightarrow> string"
  filepath_Base :: "string \<Rightarrow> string"
  filepath_WalkDir :: "string \<Rightarrow> dirEntry list"
  fsnotify_NewWatcher :: "error option"
  watcher_Add :: "string \<Rightarrow> error option"
  os_MkdirAll :: "string \<Rightarrow> error option"
  os_Open :: "string \<Rightarrow> error option"
  os_Create :: "string \<Rightarrow> error option"
  io_Copy :: "string \<Rightarrow> string \<times> error option"
  file_Sync :: "string \<Rightarrow> error option"
  uuid_New :: "nat \<Rightarrow> string"
  UploadDir :: string
  db_error :: "string option"
  userRepo_FindByID :: "nat \<Rightarrow> error + User"
  profileRepo_FindByID :: "string \<Rightarrow> TranscriptionProfile option"
  profileRepo_FindDefault :: "TranscriptionProfile option"
  profileRepo_List :: "nat \<Rightarrow> nat \<Rightarrow> error + TranscriptionProfile list"
  taskQueue_EnqueueJob :: "string \<Rightarrow> error option"

subsection \<open>State\<close>

text \<open>
  The state outside the service: the clock, the two tables, the files written below the
  upload directory, the task queue, the watch handles of the operating system and the
  timers of the Go runtime (a pending timer with the time it fires at and the path its
  callback imports).
\<close>

record watchHandle =
  watched :: "string list"
  closed :: bool

record world =
  clock :: int
  folders :: "WatchedFolder list"
  jobs :: "TranscriptionJob list"
  files :: "string \<rightharpoonup> string"
  queue :: "string list"
  watchers :: "nat \<rightharpoonup> watchHandle"
  next_watcher :: nat
  armed :: "nat \<rightharpoonup> int \<times> string"
  next_timer :: nat
  uuid_seq :: nat

text \<open>
  A runner holds its folder, its watch handle (\<open>None\<close> is Go's nil, before
  \<^verbatim>\<open>start\<close>), whether \<^verbatim>\<open>stopCh\<close> is closed, the pending timer of each path and the
  signature last imported for each path.
\<close>

record folderRunner =
  folder :: WatchedFolder
  watcher :: "nat option"
  stopped :: bool
  timers :: "string \<rightharpoonup> nat"
  imported :: "string \<rightharpoonup> fileSignature"

record Service =
  runners :: "nat \<rightharpoonup> folderRunner"
  statuses :: "nat \<rightharpoonup> runtimeStatus"

definition NewService :: Service where
  "NewService = \<lparr>runners = Map.empty, statuses = Map.empty\<rparr>"

subsection \<open>The status store\<close>

definition getStatus :: "Service \<Rightarrow> nat \<Rightarrow> runtimeStatus" where
  "getStatus s folderID =
     (case statuses s folderID of None \<Rightarrow> zeroStatus | Some status \<Rightarrow> status)"

definition setStatus :: "Service \<Rightarrow> nat \<Rightarrow> (runtimeStatus \<Rightarrow> runtimeStatus) \<Rightarrow> Service" where
  "setStatus s folderID update =
     s\<lparr>statuses := (statuses s)(folderID \<mapsto> update (getStatus s folderID))\<rparr>"

definition clearStatus :: "Service \<Rightarrow> nat \<Rightarrow> Service" where
  "clearStatus s folderID = s\<lparr>statuses := (statuses s)(folderID := None)\<rparr>"

fun markRuntimeError :: "Service \<Rightarrow> nat \<Rightarrow> error option \<Rightarrow> Service" where
  "markRuntimeError s folderID None = s"
| "markRuntimeError s folderID (Some err) =
     setStatus s folderID (\<lambda>status. status\<lparr>LastRuntimeError := Error err\<rparr>)"

definition markImported :: "Service \<Rightarrow> nat \<Rightarrow> string \<Rightarrow> int \<Rightarrow> Service" where
  "markImported s folderID sourcePath now =
     setStatus s folderID (\<lambda>status. status\<lparr>LastRuntimeError := [],
       LastImportedAt := Some now, LastImportedFile := sourcePath\<rparr>)"

subsection \<open>The stability prober\<close>

text \<open>
  The loop of \<^verbatim>\<open>waitForStableFile\<close>, with the loop variables as arguments: the time,
  the index \<open>i\<close>, the previous size and modification time and the count of stable reads.
  \<^verbatim>\<open>time.Sleep(stabilityInterval)\<close> moves the clock; the result comes with the time
  at which the function returns.
\<close>

definition timeoutError :: "string \<Rightarrow> error" where
  "timeoutError path = Other (''file '' @ fmt_q path @ '' did not stabilize before timeout'')"

function waitForStableFile_loop ::
  "env \<Rightarrow> string \<Rightarrow> int \<Rightarrow> nat \<Rightarrow> int \<Rightarrow> int \<Rightarrow> nat \<Rightarrow> (error + fileSignature) \<times> int" where
  "waitForStableFile_loop e path now i prevSize prevModUnix stableReads =
     (if i < stabilityChecks + 2 then
        (case os_Stat e now path of
           Inl err \<Rightarrow> (Inl err, now)
         | Inr info \<Rightarrow>
             if info_IsDir info
             then (Inl (Other (''cannot import directory '' @ fmt_q path)), now)
             else
               let size = info_Size info;
                   modUnix = info_ModTime info;
                   stableReads' =
                     (if size = prevSize \<and> modUnix = prevModUnix then stableReads + 1 else 0)
               in if stableReads' \<ge> stabilityChecks \<and> size \<ge> minimumAudioBytes
                  then (Inr \<lparr>Size = size, ModUnix = modUnix\<rparr>, now)
                  else waitForStableFile_loop e path (now + stabilityInterval) (i + 1)
                         size modUnix stableReads')
      else (Inl (timeoutError path), now))"
  by pat_completeness auto
termination
  by (relation "measure (\<lambda>(e, path, now, i, prevSize, prevModUnix, stableReads).
        stabilityChecks + 2 - i)") auto

declare waitForStableFile_loop.simps [simp del]

definition waitForStableFile :: "env \<Rightarrow> int \<Rightarrow> string \<Rightarrow> (error + fileSignature) \<times> int" where
  "waitForStableFile e now path = waitForStableFile_loop e path now 0 (- 1) (- 1) 0"

text \<open>
  The words of the specification, to compare the loop with: the \<open>k\<close>-th poll is the
  stat of the path \<open>k\<close> intervals after the first, and the count at poll \<open>k\<close> is the
  number of consecutive polls, ending at \<open>k\<close>, whose size and modification time are
  those of the poll before.
\<close>

definition poll :: "env \<Rightarrow> int \<Rightarrow> string \<Rightarrow> nat \<Rightarrow> error + FileInfo" where
  "poll e t0 path k = os_Stat e (t0 + int k * stabilityInterval) path"

definition regularFile :: "error + FileInfo \<Rightarrow> bool" where
  "regularFile r = (case r of Inl err \<Rightarrow> False | Inr info \<Rightarrow> \<not> info_IsDir info)"

definition signatureOf :: "error + FileInfo \<Rightarrow> fileSignature option" where
  "signatureOf r =
     (case r of Inl err \<Rightarrow> None
      | Inr info \<Rightarrow> Some \<lparr>Size = info_Size info, ModUnix = info_ModTime info\<rparr>)"

fun unchangedPolls :: "(nat \<Rightarrow> error + FileInfo) \<Rightarrow> nat \<Rightarrow> nat" where
  "unchangedPolls p 0 = 0"
| "unchangedPolls p (Suc k) =
     (if signatureOf (p (Suc k)) = signatureOf (p k) then Suc (unchangedPolls p k) else 0)"

text \<open>
  The file is declared stable at poll \<open>k\<close> with signature \<open>sg\<close>: every poll so far saw
  a file, the count has reached the threshold, and the size is at least the minimum.
\<close>

definition declaredStable :: "(nat \<Rightarrow> error + FileInfo) \<Rightarrow> nat \<Rightarrow> fileSignature \<Rightarrow> bool" where
  "declaredStable p k sg \<longleftrightarrow>
     (\<forall>j\<le>k. regularFile (p j)) \<and> unchangedPolls p k = stabilityChecks \<and>
     signatureOf (p k) = Some sg \<and> Size sg \<ge> minimumAudioBytes"

text \<open>
  The loop variables before poll \<open>i\<close>, against the polls made so far. The loop starts
  with a previous size and time of \<open>- 1\<close>, so a first poll that reads \<open>- 1\<close> for both
  counts as unchanged; the count is then one ahead, with a size below the minimum.
\<close>

definition loopState :: "(nat \<Rightarrow> error + FileInfo) \<Rightarrow> nat \<Rightarrow> int \<Rightarrow> int \<Rightarrow> nat \<Rightarrow> bool" where
  "loopState p i prevSize prevModUnix stableReads \<longleftrightarrow>
     (case i of
        0 \<Rightarrow> prevSize = - 1 \<and> prevModUnix = - 1 \<and> stableReads = 0
      | Suc j \<Rightarrow>
          signatureOf (p j) = Some \<lparr>Size = prevSize, ModUnix = prevModUnix\<rparr> \<and>
          (stableReads = unchangedPolls p j \<or>
           stableReads = Suc (unchangedPolls p j) \<and> prevSize = - 1))"

subsection \<open>Paths and extensions\<close>

text \<open>
  \<^verbatim>\<open>filepath.Ext\<close> scans the path from its end up to the last separator and returns
  the suffix that starts at the last dot of the last element, or the empty string. The
  scan runs over the reversed path, with the characters passed so far in \<open>suffix\<close>.
\<close>

fun filepath_Ext_scan :: "string \<Rightarrow> string \<Rightarrow> string" where
  "filepath_Ext_scan [] suffix = []"
| "filepath_Ext_scan (c # cs) suffix =
     (if c = CHR ''/'' then []
      else if c = CHR ''.'' then c # suffix
      else filepath_Ext_scan cs (c # suffix))"

definition filepath_Ext :: "string \<Rightarrow> string" where
  "filepath_Ext path = filepath_Ext_scan (rev path) []"

text \<open>
  \<^verbatim>\<open>strings.ToLower\<close> maps the bytes \<^verbatim>\<open>A\<close> to \<^verbatim>\<open>Z\<close> of a string of ASCII bytes
  to lower case, and maps a string with a byte of 128 or more rune by rune with
  \<^verbatim>\<open>unicode.ToLower\<close>, which is the environment's.
\<close>

definition lowerByte :: "char \<Rightarrow> char" where
  "lowerByte c =
     (if (65::nat) \<le> of_char c \<and> of_char c \<le> (90::nat) then char_of (of_char c + (32::nat))
      else c)"

definition strings_ToLower :: "env \<Rightarrow> string \<Rightarrow> string" where
  "strings_ToLower e s =
     (if \<forall>c\<in>set s. of_char c < (128::nat) then map lowerByte s else unicode_ToLower e s)"

definition isWatchableAudioFile :: "env \<Rightarrow> string \<Rightarrow> bool" where
  "isWatchableAudioFile e path =
     (let ext = strings_ToLower e (filepath_Ext path)
      in if ext = ''.mp3'' \<or> ext = ''.wav'' \<or> ext = ''.flac'' \<or> ext = ''.m4a'' \<or>
            ext = ''.aac'' \<or> ext = ''.ogg'' \<or> ext = ''.wma'' \<or> ext = ''.aiff'' \<or>
            ext = ''.mp4'' \<or> ext = ''.mov'' \<or> ext = ''.mkv'' \<or> ext = ''.webm'' \<or>
            ext = ''.avi''
         then True else False)"

text \<open>The media set as the specification lists it.\<close>

definition supportedMedia :: "string list" where
  "supportedMedia = [''mp3'', ''wav'', ''flac'', ''m4a'', ''aac'', ''ogg'', ''wma'', ''aiff'',
     ''mp4'', ''mov'', ''mkv'', ''webm'', ''avi'']"

subsection \<open>The job store and the task queue\<close>

text \<open>
  Modelled from the spec: the job repository is not among the sources. Creating a job
  inserts a row, and fails when the database is unreachable or a row has the job's
  identifier already; updating a job writes the job's fields to the row of its
  identifier.
\<close>

definition jobRepo_Create :: "env \<Rightarrow> world \<Rightarrow> TranscriptionJob \<Rightarrow> error option \<times> world" where
  "jobRepo_Create e w job =
     (case db_error e of
        Some msg \<Rightarrow> (Some (Other msg), w)
      | None \<Rightarrow>
          if \<exists>j\<in>set (jobs w). TranscriptionJob.ID j = TranscriptionJob.ID job
          then (Some (Other ''UNIQUE constraint failed: transcription_jobs.id''), w)
          else (None, w\<lparr>jobs := jobs w @ [job]\<rparr>))"

definition jobRepo_Update :: "env \<Rightarrow> world \<Rightarrow> TranscriptionJob \<Rightarrow> error option \<times> world" where
  "jobRepo_Update e w job =
     (case db_error e of
        Some msg \<Rightarrow> (Some (Other msg), w)
      | None \<Rightarrow>
          (None, w\<lparr>jobs := map (\<lambda>j. if TranscriptionJob.ID j = TranscriptionJob.ID job
                                      then job else j) (jobs w)\<rparr>))"

text \<open>
  Modelled from the spec: the queue behind \<^verbatim>\<open>TaskQueue\<close> accepts a job identifier
  or fails; whether it fails is the environment's.
\<close>

definition taskQueue_Enqueue :: "env \<Rightarrow> world \<Rightarrow> string \<Rightarrow> error option \<times> world" where
  "taskQueue_Enqueue e w jobID =
     (case taskQueue_EnqueueJob e jobID of
        Some err \<Rightarrow> (Some err, w)
      | None \<Rightarrow> (None, w\<lparr>queue := queue w @ [jobID]\<rparr>))"

subsection \<open>The importer\<close>

definition copyFile ::
  "env \<Rightarrow> (string \<rightharpoonup> string) \<Rightarrow> string \<Rightarrow> string \<Rightarrow> error option \<times> (string \<rightharpoonup> string)" where
  "copyFile e fs src dst =
     (case os_Open e src of
        Some err \<Rightarrow> (Some err, fs)
      | None \<Rightarrow>
          (case os_Create e dst of
             Some err \<Rightarrow> (Some err, fs)
           | None \<Rightarrow>
               (case io_Copy e src of
                  (written, Some err) \<Rightarrow> (Some err, fs(dst \<mapsto> written))
                | (written, None) \<Rightarrow> (file_Sync e dst, fs(dst \<mapsto> written)))))"

text \<open>
  The profile for auto-transcription: the user's default profile, else the system's
  default profile, else the first profile listed.
\<close>

definition selectProfile :: "env \<Rightarrow> User \<Rightarrow> TranscriptionProfile option" where
  "selectProfile e user =
     (let profile =
            (case DefaultProfileID user of
               Some pid \<Rightarrow> profileRepo_FindByID e pid
             | None \<Rightarrow> None);
          profile =
            (case profile of None \<Rightarrow> profileRepo_FindDefault e | Some p \<Rightarrow> Some p)
      in case profile of
           None \<Rightarrow>
             (case profileRepo_List e 0 1 of
                Inr (p # ps) \<Rightarrow> Some p
              | _ \<Rightarrow> None)
         | Some p \<Rightarrow> Some p)"

text \<open>
  The three assignments that copy the parameters of the profile onto the job and mark
  it pending.
\<close>

definition applyProfile :: "TranscriptionJob \<Rightarrow> TranscriptionProfile \<Rightarrow> TranscriptionJob" where
  "applyProfile job profile =
     job\<lparr>TranscriptionJob.Parameters := TranscriptionProfile.Parameters profile,
         Diarization := Diarize (TranscriptionProfile.Parameters profile),
         Status := StatusPending\<rparr>"

text \<open>
  \<^verbatim>\<open>maybeQueueAutoTranscription\<close> changes the job it is handed (a pointer in Go) and
  the stored row; it returns the world and the job.
\<close>

definition maybeQueueAutoTranscription ::
  "env \<Rightarrow> world \<Rightarrow> nat \<Rightarrow> TranscriptionJob \<Rightarrow> world \<times> TranscriptionJob" where
  "maybeQueueAutoTranscription e w userID job =
     (case userRepo_FindByID e userID of
        Inl err \<Rightarrow> (w, job)
      | Inr user \<Rightarrow>
          if \<not> AutoTranscriptionEnabled user then (w, job)
          else
            (case selectProfile e user of
               None \<Rightarrow> (w, job)
             | Some profile \<Rightarrow>
                 let job1 = applyProfile job profile
                 in (case jobRepo_Update e w job1 of
                       (Some err, w1) \<Rightarrow>
                         let job2 = job1\<lparr>Status := StatusUploaded\<rparr>
                         in (snd (jobRepo_Update e w1 job2), job2)
                     | (None, w1) \<Rightarrow>
                         (case taskQueue_Enqueue e w1 (TranscriptionJob.ID job1) of
                            (Some err, w2) \<Rightarrow>
                              let job2 = job1\<lparr>Status := StatusUploaded\<rparr>
                              in (snd (jobRepo_Update e w2 job2), job2)
                          | (None, w2) \<Rightarrow> (w2, job1)))))"

text \<open>
  The job that \<^verbatim>\<open>importFile\<close> creates: the fields it does not set have Go's zero
  values.
\<close>

definition newJob :: "string \<Rightarrow> string \<Rightarrow> string \<Rightarrow> TranscriptionJob" where
  "newJob jobID destPath title =
     \<lparr>TranscriptionJob.ID = jobID, AudioPath = destPath, Status = StatusUploaded,
      Title = Some title, Parameters = \<lparr>Diarize = False, Settings = []\<rparr>,
      Diarization = False\<rparr>"

text \<open>
  \<^verbatim>\<open>importFile\<close>. The result of \<^verbatim>\<open>os.Remove\<close> is discarded by the source; the
  file that this call has just written is taken to be removed by it.
\<close>

definition importFile :: "env \<Rightarrow> world \<Rightarrow> nat \<Rightarrow> string \<Rightarrow> error option \<times> world" where
  "importFile e w userID sourcePath =
     (case os_Stat e (clock w) sourcePath of
        Inl err \<Rightarrow> (Some (Wrapped ''failed to access source file: '' err []), w)
      | Inr info \<Rightarrow>
          if info_IsDir info
          then (Some (Other (''source path '' @ fmt_q sourcePath @ '' is a directory'')), w)
          else if \<not> isWatchableAudioFile e sourcePath
          then (Some (Other (''unsupported file type for '' @ fmt_q sourcePath)), w)
          else
            (case os_MkdirAll e (UploadDir e) of
               Some err \<Rightarrow> (Some (Wrapped ''failed to create upload directory: '' err []), w)
             | None \<Rightarrow>
                 let ext = strings_ToLower e (filepath_Ext sourcePath);
                     jobID = uuid_New e (uuid_seq w);
                     w0 = w\<lparr>uuid_seq := Suc (uuid_seq w)\<rparr>;
                     destPath = filepath_Join e (UploadDir e) (jobID @ ext)
                 in (case copyFile e (files w0) sourcePath destPath of
                       (Some err, fs) \<Rightarrow>
                         (Some (Wrapped ''failed to copy file for import: '' err []),
                          w0\<lparr>files := fs\<rparr>)
                     | (None, fs) \<Rightarrow>
                         let w1 = w0\<lparr>files := fs\<rparr>;
                             title = filepath_Base e sourcePath;
                             job = newJob jobID destPath title
                         in (case jobRepo_Create e w1 job of
                               (Some err, w2) \<Rightarrow>
                                 (Some (Wrapped ''failed to create transcription job: '' err []),
                                  w2\<lparr>files := (files w2)(destPath := None)\<rparr>)
                             | (None, w2) \<Rightarrow>
                                 (None, fst (maybeQueueAutoTranscription e w2 userID job))))))"

definition wasImported :: "folderRunner \<Rightarrow> string \<Rightarrow> fileSignature \<Rightarrow> bool" where
  "wasImported r path signature =
     (case imported r path of None \<Rightarrow> False | Some prev \<Rightarrow> prev = signature)"

definition recordImported :: "folderRunner \<Rightarrow> string \<Rightarrow> fileSignature \<Rightarrow> folderRunner" where
  "recordImported r path signature = r\<lparr>imported := (imported r)(path \<mapsto> signature)\<rparr>"

definition processCandidate ::
  "env \<Rightarrow> world \<Rightarrow> Service \<Rightarrow> folderRunner \<Rightarrow> string \<Rightarrow> world \<times> Service \<times> folderRunner" where
  "processCandidate e w s r path =
     (case waitForStableFile e (clock w) path of
        (Inl err, now) \<Rightarrow>
          if errors_Is err ErrNotExist then (w\<lparr>clock := now\<rparr>, s, r)
          else (w\<lparr>clock := now\<rparr>, markRuntimeError s (ID (folder r)) (Some err), r)
      | (Inr signature, now) \<Rightarrow>
          if wasImported r path signature then (w\<lparr>clock := now\<rparr>, s, r)
          else
            (case importFile e (w\<lparr>clock := now\<rparr>) (UserID (folder r)) path of
               (Some err, w1) \<Rightarrow> (w1, markRuntimeError s (ID (folder r)) (Some err), r)
             | (None, w1) \<Rightarrow>
                 (w1, markImported s (ID (folder r)) path (clock w1),
                  recordImported r path signature)))"

subsection \<open>The folder runner\<close>

definition watchPath :: "world \<Rightarrow> nat \<Rightarrow> string \<Rightarrow> world" where
  "watchPath w h path =
     (case watchers w h of
        None \<Rightarrow> w
      | Some wh \<Rightarrow> w\<lparr>watchers := (watchers w)(h \<mapsto> wh\<lparr>watched := watched wh @ [path]\<rparr>)\<rparr>)"

definition closeWatcher :: "world \<Rightarrow> nat \<Rightarrow> world" where
  "closeWatcher w h =
     (case watchers w h of
        None \<Rightarrow> w
      | Some wh \<Rightarrow> w\<lparr>watchers := (watchers w)(h \<mapsto> wh\<lparr>closed := True\<rparr>)\<rparr>)"

text \<open>The callback that \<^verbatim>\<open>addWatchedPath\<close> gives to \<^verbatim>\<open>filepath.WalkDir\<close>.\<close>

definition walkFn ::
  "env \<Rightarrow> folderRunner \<Rightarrow> nat \<Rightarrow> string \<Rightarrow> world \<times> Service \<Rightarrow> dirEntry \<Rightarrow> world \<times> Service" where
  "walkFn e r h root ws d =
     (if entry_err d \<noteq> None then ws
      else if entry_path d = root \<or> \<not> entry_IsDir d then ws
      else
        (case watcher_Add e (entry_path d) of
           Some watchErr \<Rightarrow>
             (fst ws, markRuntimeError (snd ws) (ID (folder r))
                (Some (Wrapped (''failed to watch subdirectory '' @ fmt_q (entry_path d) @ '': '')
                   watchErr [])))
         | None \<Rightarrow> (watchPath (fst ws) h (entry_path d), snd ws)))"

text \<open>
  \<^verbatim>\<open>addWatchedPath\<close>. Both callers run after \<^verbatim>\<open>start\<close> has set the watcher; with
  a nil watcher the Go code would panic, which is the error of the first case here.
\<close>

definition addWatchedPath ::
  "env \<Rightarrow> world \<Rightarrow> Service \<Rightarrow> folderRunner \<Rightarrow> string \<Rightarrow> error option \<times> world \<times> Service" where
  "addWatchedPath e w s r root =
     (case watcher r of
        None \<Rightarrow> (Some (Other ''invalid memory address or nil pointer dereference''), w, s)
      | Some h \<Rightarrow>
          (case watcher_Add e root of
             Some err \<Rightarrow> (Some (Wrapped (''failed to watch '' @ fmt_q root @ '': '') err []), w, s)
           | None \<Rightarrow>
               if \<not> Recursive (folder r) then (None, watchPath w h root, s)
               else
                 (case foldl (walkFn e r h root) (watchPath w h root, s) (filepath_WalkDir e root) of
                    (w1, s1) \<Rightarrow> (None, w1, s1))))"

text \<open>\<^verbatim>\<open>start\<close>; the goroutine of \<^verbatim>\<open>run\<close> is the steps \<open>handleEvent\<close> below.\<close>

definition runner_start ::
  "env \<Rightarrow> world \<Rightarrow> Service \<Rightarrow> folderRunner \<Rightarrow> error option \<times> world \<times> Service \<times> folderRunner" where
  "runner_start e w s r =
     (case fsnotify_NewWatcher e of
        Some err \<Rightarrow> (Some (Wrapped ''failed to create filesystem watcher: '' err []), w, s, r)
      | None \<Rightarrow>
          let h = next_watcher w;
              w0 = w\<lparr>watchers := (watchers w)(h \<mapsto> \<lparr>watched = [], closed = False\<rparr>),
                      next_watcher := Suc h\<rparr>;
              r0 = r\<lparr>watcher := Some h\<rparr>
          in (case addWatchedPath e w0 s r0 (Path (folder r0)) of
                (Some err, w1, s1) \<Rightarrow> (Some err, closeWatcher w1 h, s1, r0)
              | (None, w1, s1) \<Rightarrow> (None, w1, s1, r0)))"

text \<open>
  \<^verbatim>\<open>stop\<close>: a second call returns at once; the first closes the watch handle and stops
  every pending timer. The wait of at most three seconds for the run loop is not modelled.
\<close>

definition runner_stop :: "world \<Rightarrow> folderRunner \<Rightarrow> world \<times> folderRunner" where
  "runner_stop w r =
     (if stopped r then (w, r)
      else
        let w0 = (case watcher r of None \<Rightarrow> w | Some h \<Rightarrow> closeWatcher w h);
            w1 = w0\<lparr>armed := (\<lambda>t. if t \<in> ran (timers r) then None else armed w0 t)\<rparr>
        in (w1, r\<lparr>stopped := True, timers := Map.empty\<rparr>))"

text \<open>
  \<^verbatim>\<open>scheduleImport\<close>: the pending timer of the path is stopped, and a new timer is
  started that fires after the debounce delay.
\<close>

definition scheduleImport :: "world \<Rightarrow> folderRunner \<Rightarrow> string \<Rightarrow> world \<times> folderRunner" where
  "scheduleImport w r path =
     (let w0 = (case timers r path of
                  None \<Rightarrow> w
                | Some timer \<Rightarrow> w\<lparr>armed := (armed w)(timer := None)\<rparr>);
          t = next_timer w0
      in (w0\<lparr>armed := (armed w0)(t \<mapsto> (clock w0 + fileDebounceDelay, path)),
              next_timer := Suc t\<rparr>,
          r\<lparr>timers := (timers r)(path \<mapsto> t)\<rparr>))"

definition handleEvent ::
  "env \<Rightarrow> world \<Rightarrow> Service \<Rightarrow> folderRunner \<Rightarrow> Event \<Rightarrow> world \<times> Service \<times> folderRunner" where
  "handleEvent e w s r event =
     (if Op event AND fsnotify_Create = fsnotify_Create \<and>
         (case os_Stat e (clock w) (Name event) of
            Inl err \<Rightarrow> False
          | Inr info \<Rightarrow> info_IsDir info \<and> Recursive (folder r))
      then
        (case addWatchedPath e w s r (Name event) of
           (Some err, w1, s1) \<Rightarrow> (w1, markRuntimeError s1 (ID (folder r)) (Some err), r)
         | (None, w1, s1) \<Rightarrow> (w1, s1, r))
      else if Op event AND (fsnotify_Create OR fsnotify_Write) = 0 then (w, s, r)
      else if \<not> isWatchableAudioFile e (Name event) then (w, s, r)
      else
        (case scheduleImport w r (Name event) of
           (w1, r1) \<Rightarrow> (w1, s, r1)))"

text \<open>
  The callback of the timer that \<^verbatim>\<open>scheduleImport\<close> starts: when timer \<open>t\<close> fires it
  leaves the pending timers, the candidate is processed, and the entry of the path is
  deleted from the runner's timers.
\<close>

definition timerFired ::
  "env \<Rightarrow> world \<Rightarrow> Service \<Rightarrow> folderRunner \<Rightarrow> nat \<Rightarrow> world \<times> Service \<times> folderRunner" where
  "timerFired e w s r t =
     (case armed w t of
        None \<Rightarrow> (w, s, r)
      | Some (deadline, path) \<Rightarrow>
          (case processCandidate e (w\<lparr>armed := (armed w)(t := None)\<rparr>) s r path of
             (w1, s1, r1) \<Rightarrow> (w1, s1, r1\<lparr>timers := (timers r1)(path := None)\<rparr>)))"

subsection \<open>The registry of runners\<close>

definition newRunner :: "WatchedFolder \<Rightarrow> folderRunner" where
  "newRunner f = \<lparr>folder = f, watcher = None, stopped = False, timers = Map.empty,
     imported = Map.empty\<rparr>"

text \<open>
  The second critical section of \<^verbatim>\<open>startRunner\<close>, entered with the runner that has
  just started: if a runner is registered for the folder by now, the new one is stopped
  and dropped; else it is registered and the status is set.
\<close>

definition startRunner_register ::
  "world \<Rightarrow> Service \<Rightarrow> WatchedFolder \<Rightarrow> folderRunner \<Rightarrow> error option \<times> world \<times> Service" where
  "startRunner_register w s f runner =
     (if runners s (ID f) \<noteq> None then (None, fst (runner_stop w runner), s)
      else
        (None, w,
         s\<lparr>runners := (runners s)(ID f \<mapsto> runner),
           statuses := (statuses s)(ID f \<mapsto>
             (getStatus s (ID f))\<lparr>Active := True, LastRuntimeError := []\<rparr>)\<rparr>))"

text \<open>
  \<^verbatim>\<open>startRunner\<close> holds the lock of the service for its first check and for the
  registration, and not in between, while the runner starts. What other goroutines do
  to the maps of the service in between is the argument \<open>others\<close>; a call that runs
  alone is \<open>startRunner\<close>, where nothing happens in between.
\<close>

definition startRunner_among ::
  "(Service \<Rightarrow> Service) \<Rightarrow> env \<Rightarrow> world \<Rightarrow> Service \<Rightarrow> WatchedFolder \<Rightarrow>
     error option \<times> world \<times> Service" where
  "startRunner_among others e w s f =
     (if runners s (ID f) \<noteq> None
      then (None, w, s\<lparr>statuses := (statuses s)(ID f \<mapsto> (getStatus s (ID f))\<lparr>Active := True\<rparr>)\<rparr>)
      else
        (case runner_start e w s (newRunner f) of
           (Some err, w1, s1, r1) \<Rightarrow>
             (Some err, w1,
              setStatus (others s1) (ID f)
                (\<lambda>status. status\<lparr>Active := False, LastRuntimeError := Error err\<rparr>))
         | (None, w1, s1, r1) \<Rightarrow> startRunner_register w1 (others s1) f r1))"

definition startRunner ::
  "env \<Rightarrow> world \<Rightarrow> Service \<Rightarrow> WatchedFolder \<Rightarrow> error option \<times> world \<times> Service" where
  "startRunner = startRunner_among (\<lambda>s. s)"

definition stopRunner :: "world \<Rightarrow> Service \<Rightarrow> nat \<Rightarrow> world \<times> Service" where
  "stopRunner w s folderID =
     (let runner = runners s folderID;
          s0 = s\<lparr>runners := (runners s)(folderID := None),
                 statuses := (statuses s)(folderID \<mapsto> (getStatus s folderID)\<lparr>Active := False\<rparr>)\<rparr>
      in case runner of
           None \<Rightarrow> (w, s0)
         | Some r \<Rightarrow> (fst (runner_stop w r), s0))"

subsection \<open>The watched-folder repository\<close>

text \<open>
  The table \<^verbatim>\<open>watched_folders\<close> is the list \<open>folders\<close>. A query fails with the
  error of the database when it is unreachable. \<^verbatim>\<open>First\<close> returns the row with the
  least primary key, or \<^verbatim>\<open>gorm.ErrRecordNotFound\<close>.
\<close>

definition gorm_Find :: "env \<Rightarrow> WatchedFolder list \<Rightarrow> error + WatchedFolder list" where
  "gorm_Find e rows = (case db_error e of Some msg \<Rightarrow> Inl (Other msg) | None \<Rightarrow> Inr rows)"

definition gorm_First :: "env \<Rightarrow> WatchedFolder list \<Rightarrow> error + WatchedFolder" where
  "gorm_First e rows =
     (case db_error e of
        Some msg \<Rightarrow> Inl (Other msg)
      | None \<Rightarrow>
          (case sort_key ID rows of
             [] \<Rightarrow> Inl ErrRecordNotFound
           | f # fs \<Rightarrow> Inr f))"

definition folderRepo_FindByUser :: "env \<Rightarrow> world \<Rightarrow> nat \<Rightarrow> error + WatchedFolder list" where
  "folderRepo_FindByUser e w userID =
     gorm_Find e (sort_key Path (filter (\<lambda>f. UserID f = userID) (folders w)))"

definition folderRepo_FindEnabled :: "env \<Rightarrow> world \<Rightarrow> error + WatchedFolder list" where
  "folderRepo_FindEnabled e w =
     gorm_Find e (sort_key ID (filter (\<lambda>f. Enabled f = True) (folders w)))"

definition folderRepo_FindByUserAndPath ::
  "env \<Rightarrow> world \<Rightarrow> nat \<Rightarrow> string \<Rightarrow> error + WatchedFolder option" where
  "folderRepo_FindByUserAndPath e w userID path =
     (case gorm_First e (filter (\<lambda>f. UserID f = userID \<and> Path f = path) (folders w)) of
        Inl err \<Rightarrow> if errors_Is err ErrRecordNotFound then Inr None else Inl err
      | Inr f \<Rightarrow> Inr (Some f))"

definition folderRepo_FindByUserAndID ::
  "env \<Rightarrow> world \<Rightarrow> nat \<Rightarrow> nat \<Rightarrow> error + WatchedFolder" where
  "folderRepo_FindByUserAndID e w userID folderID =
     gorm_First e (filter (\<lambda>f. ID f = folderID \<and> UserID f = userID) (folders w))"

text \<open>
  Modelled from the spec: \<^verbatim>\<open>Create\<close>, \<^verbatim>\<open>Update\<close> and \<^verbatim>\<open>Delete\<close> of the base
  repository are not among the sources. Creating a folder inserts a row under a fresh
  identifier, one more than the largest in the table, with its timestamps set, and fails
  when the owner has a row with the path already (the unique index of the model on
  owner and path); updating replaces the row of the identifier; deleting removes it.
  Each fails, and changes nothing, when the database is unreachable.
\<close>

definition freshID :: "WatchedFolder list \<Rightarrow> nat" where
  "freshID rows = Suc (fold max (map ID rows) 0)"

definition folderRepo_Create ::
  "env \<Rightarrow> world \<Rightarrow> WatchedFolder \<Rightarrow> (error + WatchedFolder) \<times> world" where
  "folderRepo_Create e w f =
     (case db_error e of
        Some msg \<Rightarrow> (Inl (Other msg), w)
      | None \<Rightarrow>
          if \<exists>g\<in>set (folders w). UserID g = UserID f \<and> Path g = Path f
          then (Inl (Other ''UNIQUE constraint failed: watched_folders.user_id, watched_folders.path''), w)
          else
            let f' = f\<lparr>ID := freshID (folders w), CreatedAt := clock w, UpdatedAt := clock w\<rparr>
            in (Inr f', w\<lparr>folders := folders w @ [f']\<rparr>))"

definition folderRepo_Update :: "env \<Rightarrow> world \<Rightarrow> WatchedFolder \<Rightarrow> error option \<times> world" where
  "folderRepo_Update e w f =
     (case db_error e of
        Some msg \<Rightarrow> (Some (Other msg), w)
      | None \<Rightarrow>
          (None, w\<lparr>folders := map (\<lambda>g. if ID g = ID f then f\<lparr>UpdatedAt := clock w\<rparr> else g)
                                 (folders w)\<rparr>))"

definition folderRepo_Delete :: "env \<Rightarrow> world \<Rightarrow> nat \<Rightarrow> error option \<times> world" where
  "folderRepo_Delete e w folderID =
     (case db_error e of
        Some msg \<Rightarrow> (Some (Other msg), w)
      | None \<Rightarrow> (None, w\<lparr>folders := filter (\<lambda>g. ID g \<noteq> folderID) (folders w)\<rparr>))"

subsection \<open>The operations of the service\<close>

definition makeView :: "WatchedFolder \<Rightarrow> runtimeStatus \<Rightarrow> FolderView" where
  "makeView f status =
     \<lparr>Active = Active status, LastRuntimeError = LastRuntimeError status,
      LastImportedAt = LastImportedAt status, LastImportedFile = LastImportedFile status,
      Folder = f\<rparr>"

text \<open>The body of the loop of \<^verbatim>\<open>ListUserFolders\<close>, which \<^verbatim>\<open>getFolderView\<close> repeats.\<close>

definition viewOf :: "Service \<Rightarrow> WatchedFolder \<Rightarrow> FolderView" where
  "viewOf s f =
     (let status = getStatus s (ID f);
          status = (if \<not> Enabled f then status\<lparr>Active := False\<rparr> else status)
      in makeView f status)"

definition ListUserFolders :: "env \<Rightarrow> world \<Rightarrow> Service \<Rightarrow> nat \<Rightarrow> error + FolderView list" where
  "ListUserFolders e w s userID =
     (case folderRepo_FindByUser e w userID of
        Inl err \<Rightarrow> Inl err
      | Inr fs \<Rightarrow> Inr (map (viewOf s) fs))"

definition getFolderView :: "env \<Rightarrow> world \<Rightarrow> Service \<Rightarrow> nat \<Rightarrow> nat \<Rightarrow> error + FolderView" where
  "getFolderView e w s userID folderID =
     (case folderRepo_FindByUserAndID e w userID folderID of
        Inl err \<Rightarrow> Inl err
      | Inr f \<Rightarrow>
          let status = getStatus s folderID;
              status = (if \<not> Enabled f then status\<lparr>Active := False\<rparr> else status)
          in Inr (makeView f status))"

definition normalizeFolderPath :: "env \<Rightarrow> world \<Rightarrow> string \<Rightarrow> error + string" where
  "normalizeFolderPath e w path =
     (let cleaned = strings_TrimSpace e path
      in if cleaned = [] then Inl (Wrapped [] ErrInvalidFolderPath '': empty path'')
         else
           (case filepath_Abs e cleaned of
              Inl err \<Rightarrow> Inl (Wrapped [] ErrInvalidFolderPath ('': '' @ Error err))
            | Inr absPath \<Rightarrow>
                let normalized = filepath_Clean e absPath
                in (case os_Stat e (clock w) normalized of
                      Inl err \<Rightarrow>
                        if errors_Is err ErrNotExist
                        then Inl (Wrapped [] ErrInvalidFolderPath '': path does not exist'')
                        else Inl (Wrapped [] ErrInvalidFolderPath ('': '' @ Error err))
                    | Inr info \<Rightarrow>
                        if \<not> info_IsDir info
                        then Inl (Wrapped [] ErrInvalidFolderPath '': path is not a directory'')
                        else Inr normalized)))"

definition CreateUserFolder ::
  "env \<Rightarrow> world \<Rightarrow> Service \<Rightarrow> nat \<Rightarrow> string \<Rightarrow> bool \<Rightarrow> bool \<Rightarrow>
     (error + FolderView) \<times> world \<times> Service" where
  "CreateUserFolder e w s userID path recursive enabled =
     (case normalizeFolderPath e w path of
        Inl err \<Rightarrow> (Inl err, w, s)
      | Inr normalizedPath \<Rightarrow>
          (case folderRepo_FindByUserAndPath e w userID normalizedPath of
             Inl err \<Rightarrow> (Inl err, w, s)
           | Inr (Some existing) \<Rightarrow> (Inl ErrFolderAlreadyExists, w, s)
           | Inr None \<Rightarrow>
               (case folderRepo_Create e w
                       \<lparr>ID = 0, UserID = userID, Path = normalizedPath, Recursive = recursive,
                        Enabled = enabled, CreatedAt = 0, UpdatedAt = 0\<rparr> of
                  (Inl err, w1) \<Rightarrow> (Inl err, w1, s)
                | (Inr f, w1) \<Rightarrow>
                    if Enabled f then
                      (case startRunner e w1 s f of
                         (Some err, w2, s2) \<Rightarrow>
                           (Inl err, snd (folderRepo_Delete e w2 (ID f)), clearStatus s2 (ID f))
                       | (None, w2, s2) \<Rightarrow> (getFolderView e w2 s2 userID (ID f), w2, s2))
                    else (getFolderView e w1 s userID (ID f), w1, s))))"

definition SetUserFolderEnabled ::
  "env \<Rightarrow> world \<Rightarrow> Service \<Rightarrow> nat \<Rightarrow> nat \<Rightarrow> bool \<Rightarrow> (error + FolderView) \<times> world \<times> Service" where
  "SetUserFolderEnabled e w s userID folderID enabled =
     (case folderRepo_FindByUserAndID e w userID folderID of
        Inl err \<Rightarrow>
          if errors_Is err ErrRecordNotFound then (Inl ErrFolderNotFound, w, s)
          else (Inl err, w, s)
      | Inr f \<Rightarrow>
          if Enabled f = enabled then (getFolderView e w s userID folderID, w, s)
          else
            let f1 = f\<lparr>Enabled := enabled\<rparr>
            in (case folderRepo_Update e w f1 of
                  (Some err, w1) \<Rightarrow> (Inl err, w1, s)
                | (None, w1) \<Rightarrow>
                    if enabled then
                      (case startRunner e w1 s f1 of
                         (Some err, w2, s2) \<Rightarrow>
                           (Inl err, snd (folderRepo_Update e w2 (f1\<lparr>Enabled := False\<rparr>)), s2)
                       | (None, w2, s2) \<Rightarrow> (getFolderView e w2 s2 userID folderID, w2, s2))
                    else
                      (case stopRunner w1 s folderID of
                         (w2, s2) \<Rightarrow> (getFolderView e w2 s2 userID folderID, w2, s2))))"

definition DeleteUserFolder ::
  "env \<Rightarrow> world \<Rightarrow> Service \<Rightarrow> nat \<Rightarrow> nat \<Rightarrow> error option \<times> world \<times> Service" where
  "DeleteUserFolder e w s userID folderID =
     (case folderRepo_FindByUserAndID e w userID folderID of
        Inl err \<Rightarrow>
          if errors_Is err ErrRecordNotFound then (Some ErrFolderNotFound, w, s)
          else (Some err, w, s)
      | Inr f \<Rightarrow>
          (case stopRunner w s folderID of
             (w1, s1) \<Rightarrow>
               (case folderRepo_Delete e w1 folderID of
                  (err, w2) \<Rightarrow> (err, w2, clearStatus s1 folderID))))"

subsection \<open>Environments to evaluate the model in\<close>

text \<open>
  An environment in which no collaborator fails: \<^verbatim>\<open>/music\<close> is a directory and every
  other path is a file of ten bytes last written at time 5, the watcher accepts every path, the database answers, the user of
  every identifier has auto-transcription switched on and no default profile, and the
  system has a default profile.
\<close>

definition quietEnv :: env where
  "quietEnv =
     \<lparr>os_Stat = (\<lambda>t path.
        if path = ''/music'' then Inr \<lparr>info_IsDir = True, info_Size = 96, info_ModTime = 5\<rparr>
        else Inr \<lparr>info_IsDir = False, info_Size = 10, info_ModTime = 5\<rparr>),
      strings_TrimSpace = (\<lambda>s. s),
      unicode_ToLower = (\<lambda>s. s),
      filepath_Abs = (\<lambda>s. Inr s),
      filepath_Clean = (\<lambda>s. s),
      filepath_Join = (\<lambda>dir name. dir @ ''/'' @ name),
      filepath_Base = (\<lambda>s. s),
      filepath_WalkDir = (\<lambda>root. []),
      fsnotify_NewWatcher = None,
      watcher_Add = (\<lambda>path. None),
      os_MkdirAll = (\<lambda>dir. None),
      os_Open = (\<lambda>path. None),
      os_Create = (\<lambda>path. None),
      io_Copy = (\<lambda>src. (''audio'', None)),
      file_Sync = (\<lambda>path. None),
      uuid_New = (\<lambda>n. replicate (Suc n) CHR ''u''),
      UploadDir = ''uploads'',
      db_error = None,
      userRepo_FindByID =
        (\<lambda>userID. Inr \<lparr>AutoTranscriptionEnabled = True, DefaultProfileID = None\<rparr>),
      profileRepo_FindByID = (\<lambda>pid. None),
      profileRepo_FindDefault =
        Some \<lparr>Parameters = \<lparr>Diarize = True, Settings = ''large''\<rparr>\<rparr>,
      profileRepo_List = (\<lambda>offset limit. Inr []),
      taskQueue_EnqueueJob = (\<lambda>jobID. None)\<rparr>"

text \<open>A file that is written at every poll, and a file that is gone after a second.\<close>

definition growingEnv :: env where
  "growingEnv =
     quietEnv\<lparr>os_Stat := (\<lambda>t path. Inr \<lparr>info_IsDir = False, info_Size = 10, info_ModTime = t\<rparr>)\<rparr>"

definition vanishingEnv :: env where
  "vanishingEnv =
     quietEnv\<lparr>os_Stat := (\<lambda>t path.
        if t < second then Inr \<lparr>info_IsDir = False, info_Size = 10, info_ModTime = 5\<rparr>
        else Inl ErrNotExist)\<rparr>"

text \<open>The operating system has no watch handle to give.\<close>

definition noWatcherEnv :: env where
  "noWatcherEnv = quietEnv\<lparr>fsnotify_NewWatcher := Some (Other ''too many open files'')\<rparr>"

definition emptyWorld :: world where
  "emptyWorld =
     \<lparr>clock = 0, folders = [], jobs = [], files = Map.empty, queue = [],
      watchers = Map.empty, next_watcher = 0, armed = Map.empty, next_timer = 0,
      uuid_seq = 0\<rparr>"

definition musicFolder :: WatchedFolder where
  "musicFolder =
     \<lparr>ID = 1, UserID = 7, Path = ''/music'', Recursive = False, Enabled = True,
      CreatedAt = 0, UpdatedAt = 0\<rparr>"

text \<open>
  A service with a runner on the music folder, whose status shows an error of the
  watcher and an import, and the world it lives in.
\<close>

definition busyService :: Service where
  "busyService =
     \<lparr>runners = [1 \<mapsto> (newRunner musicFolder)\<lparr>watcher := Some 0\<rparr>],
      statuses = [1 \<mapsto> \<lparr>Active = True, LastRuntimeError = ''watcher error: queue overflow'',
                          LastImportedAt = Some 3, LastImportedFile = ''/music/a.mp3''\<rparr>]\<rparr>"

definition busyWorld :: world where
  "busyWorld =
     emptyWorld\<lparr>folders := [musicFolder],
       watchers := [0 \<mapsto> \<lparr>watched = [''/music''], closed = False\<rparr>], next_watcher := 1\<rparr>"

text \<open>The task queue accepts nothing.\<close>

definition fullQueueEnv :: env where
  "fullQueueEnv = quietEnv\<lparr>taskQueue_EnqueueJob := (\<lambda>jobID. Some (Other ''queue is full''))\<rparr>"

text \<open>The database is unreachable.\<close>

definition noDatabaseEnv :: env where
  "noDatabaseEnv = quietEnv\<lparr>db_error := Some ''database is locked''\<rparr>"

text \<open>A second, disabled folder of the same user, and a world with both folders.\<close>

definition podcastFolder :: WatchedFolder where
  "podcastFolder =
     \<lparr>ID = 2, UserID = 7, Path = ''/podcasts'', Recursive = True, Enabled = False,
      CreatedAt = 0, UpdatedAt = 0\<rparr>"

definition twoFolders :: world where
  "twoFolders = emptyWorld\<lparr>folders := [podcastFolder, musicFolder]\<rparr>"

definition staleService :: Service where
  "staleService =
     \<lparr>runners = Map.empty,
      statuses = [1 \<mapsto> zeroStatus\<lparr>Active := True\<rparr>,
                  2 \<mapsto> zeroStatus\<lparr>Active := True, LastImportedFile := ''/podcasts/e1.mp3''\<rparr>]\<rparr>"

text \<open>
  A runner with a pending timer for a song, one second after the timer was started, and
  the world with that timer.
\<close>

definition pendingRunner :: folderRunner where
  "pendingRunner =
     (newRunner musicFolder)\<lparr>watcher := Some 0, timers := [''/music/Song.MP3'' \<mapsto> 0]\<rparr>"

definition pendingWorld :: world where
  "pendingWorld =
     busyWorld\<lparr>clock := second, armed := [0 \<mapsto> (3 * second, ''/music/Song.MP3'')],
       next_timer := 1\<rparr>"




subsection \<open>A scheduled import\<close>

text \<open>
  From \<open>w\<close> to \<open>w'\<close> a debounced import of the path has been scheduled on the runner
  \<open>r'\<close>: a new timer has been started, it is the timer of the path, and it fires after
  the debounce delay.
\<close>

definition scheduled :: "world \<Rightarrow> world \<Rightarrow> folderRunner \<Rightarrow> string \<Rightarrow> bool" where
  "scheduled w w' r' path \<longleftrightarrow>
     next_timer w' = Suc (next_timer w) \<and> timers r' path = Some (next_timer w) \<and>
     armed w' (next_timer w) = Some (clock w + fileDebounceDelay, path)"

text \<open>The extension of the path, compared without case, is in the media set.\<close>

definition supportedExtension :: "env \<Rightarrow> string \<Rightarrow> bool" where
  "supportedExtension e path \<longleftrightarrow>
     (\<exists>m\<in>set supportedMedia. strings_ToLower e (filepath_Ext path) = CHR ''.'' # m)"

text \<open>Every pending timer is for a path with a supported extension.\<close>

definition armedSupported :: "env \<Rightarrow> world \<Rightarrow> bool" where
  "armedSupported e w \<longleftrightarrow> (\<forall>t d p. armed w t = Some (d, p) \<longrightarrow> supportedExtension e p)"

subsection \<open>Frames\<close>

text \<open>
  Starting a runner changes nothing in the world but the watch handles, and nothing in
  the service but the status of the folder, whose record of the last import it keeps.
\<close>

definition watchersOnly :: "world \<Rightarrow> world \<Rightarrow> bool" where
  "watchersOnly w w' \<longleftrightarrow> w' = w\<lparr>watchers := watchers w', next_watcher := next_watcher w'\<rparr>"

definition statusOnly :: "nat \<Rightarrow> Service \<Rightarrow> Service \<Rightarrow> bool" where
  "statusOnly folderID s s' \<longleftrightarrow>
     runners s' = runners s \<and> (\<forall>k. k \<noteq> folderID \<longrightarrow> statuses s' k = statuses s k) \<and>
     LastImportedAt (getStatus s' folderID) = LastImportedAt (getStatus s folderID) \<and>
     LastImportedFile (getStatus s' folderID) = LastImportedFile (getStatus s folderID)"

section \<open>Properties\<close>

subsection \<open>The stability prober\<close>

lemma loop_step:
  "waitForStableFile_loop e path (t0 + int i * stabilityInterval) i ps pm c =
     (if i < 5 then
        (case poll e t0 path i of
           Inl err \<Rightarrow> (Inl err, t0 + int i * stabilityInterval)
         | Inr info \<Rightarrow>
             if info_IsDir info
             then (Inl (Other (''cannot import directory '' @ fmt_q path)), t0 + int i * stabilityInterval)
             else
               if (if info_Size info = ps \<and> info_ModTime info = pm then c + 1 else 0) \<ge> 3 \<and> info_Size info \<ge> 1
                  then (Inr \<lparr>Size = info_Size info, ModUnix = info_ModTime info\<rparr>, t0 + int i * stabilityInterval)
                  else waitForStableFile_loop e path (t0 + int (Suc i) * stabilityInterval) (Suc i)
                         (info_Size info) (info_ModTime info) (if info_Size info = ps \<and> info_ModTime info = pm then c + 1 else 0))
      else (Inl (timeoutError path), t0 + int i * stabilityInterval))"
  by (subst waitForStableFile_loop.simps)
     (simp add: poll_def stabilityChecks_def minimumAudioBytes_def Let_def algebra_simps
        split: sum.splits)

lemma unchangedPolls_le: "unchangedPolls p k \<le> k"
  by (induction k) auto

text \<open>the count after poll i, as the loop computes it, against the specification's count\<close>
lemma count_after_poll:
  assumes "loopState p i ps pm c" and "p i = Inr info"
  defines "c' \<equiv> (if info_Size info = ps \<and> info_ModTime info = pm then c + 1 else 0)"
  shows "c' = unchangedPolls p i \<or> c' = Suc (unchangedPolls p i) \<and> info_Size info = - 1"
  using assms by (cases i) (auto simp: loopState_def signatureOf_def)

lemma loopState_Suc:
  assumes "loopState p i ps pm c" and "p i = Inr info"
  shows "loopState p (Suc i) (info_Size info) (info_ModTime info)
           (if info_Size info = ps \<and> info_ModTime info = pm then c + 1 else 0)"
  using count_after_poll[OF assms] assms(2) by (auto simp: loopState_def signatureOf_def)

lemma hit_iff:
  assumes "loopState p i ps pm c" and "p i = Inr info"
  shows "((if info_Size info = ps \<and> info_ModTime info = pm then c + 1 else 0) \<ge> 3 \<and> info_Size info \<ge> 1)
     \<longleftrightarrow> (unchangedPolls p i \<ge> 3 \<and> info_Size info \<ge> 1)"
  using count_after_poll[OF assms] by auto

text \<open>the first poll with a count of at least 3 has a count of exactly 3\<close>
lemma first_hit:
  assumes reg: "\<forall>j\<le>k. regularFile (p j)" and none: "\<forall>j<k. \<forall>sg. \<not> declaredStable p j sg"
    and pk: "p k = Inr info"
  shows "(unchangedPolls p k \<ge> 3 \<and> info_Size info \<ge> 1) \<longleftrightarrow>
         declaredStable p k \<lparr>Size = info_Size info, ModUnix = info_ModTime info\<rparr>"
  using assms
proof (induction k arbitrary: info)
  case 0
  then show ?case by (simp add: declaredStable_def stabilityChecks_def)
next
  case (Suc k)
  from Suc.prems(1) obtain info' where pk': "p k = Inr info'" and nd: "\<not> info_IsDir info'"
    by (cases "p k") (auto simp: regularFile_def dest: spec[of _ k])
  have IH: "(unchangedPolls p k \<ge> 3 \<and> info_Size info' \<ge> 1) \<longleftrightarrow>
         declaredStable p k \<lparr>Size = info_Size info', ModUnix = info_ModTime info'\<rparr>"
    using Suc.IH[of info'] Suc.prems pk' by auto
  have nk: "\<not> declaredStable p k \<lparr>Size = info_Size info', ModUnix = info_ModTime info'\<rparr>"
    using Suc.prems(2) by auto
  show ?case
  proof
    assume h: "3 \<le> unchangedPolls p (Suc k) \<and> 1 \<le> info_Size info"
    then have same: "signatureOf (p (Suc k)) = signatureOf (p k)"
      by (auto split: if_splits)
    then have sz: "info_Size info' = info_Size info"
      using pk' Suc.prems(3) by (simp add: signatureOf_def)
    have "unchangedPolls p (Suc k) = Suc (unchangedPolls p k)" using same by simp
    moreover have "\<not> unchangedPolls p k \<ge> 3" using IH nk sz h by auto
    ultimately have "unchangedPolls p (Suc k) = 3" using h by linarith
    then show "declaredStable p (Suc k) \<lparr>Size = info_Size info, ModUnix = info_ModTime info\<rparr>"
      using Suc.prems(1,3) h
      by (simp add: declaredStable_def stabilityChecks_def minimumAudioBytes_def signatureOf_def)
  next
    assume "declaredStable p (Suc k) \<lparr>Size = info_Size info, ModUnix = info_ModTime info\<rparr>"
    then have "unchangedPolls p (Suc k) = 3" and "1 \<le> info_Size info"
      unfolding declaredStable_def stabilityChecks_def minimumAudioBytes_def
      by (simp_all del: unchangedPolls.simps)
    then show "3 \<le> unchangedPolls p (Suc k) \<and> 1 \<le> info_Size info"
      by linarith
  qed
qed

text \<open>polls that neither fail nor declare the file stable are passed over\<close>
lemma loop_skip:
  assumes "loopState p 0 ps pm c" and "p = poll e t0 path" and "k \<le> 5"
    and "\<forall>j<k. regularFile (p j) \<and> (\<forall>sg. \<not> declaredStable p j sg)"
  shows "\<exists>ps' pm' c'. loopState p k ps' pm' c' \<and>
           waitForStableFile_loop e path (t0 + int 0 * stabilityInterval) 0 ps pm c =
           waitForStableFile_loop e path (t0 + int k * stabilityInterval) k ps' pm' c'"
  using assms(3,4)
proof (induction k)
  case 0
  then show ?case using assms(1) by blast
next
  case (Suc k)
  then obtain ps' pm' c' where st: "loopState p k ps' pm' c'" and
    eq: "waitForStableFile_loop e path (t0 + int 0 * stabilityInterval) 0 ps pm c =
           waitForStableFile_loop e path (t0 + int k * stabilityInterval) k ps' pm' c'"
    by auto
  from Suc.prems obtain info where pk: "p k = Inr info" and nd: "\<not> info_IsDir info"
    by (cases "p k") (auto simp: regularFile_def dest: spec[of _ k])
  have reg: "\<forall>j\<le>k. regularFile (p j)" using Suc.prems(2) by (auto simp: le_less_Suc_eq)
  have none: "\<forall>j<k. \<forall>sg. \<not> declaredStable p j sg" using Suc.prems(2) by auto
  have "\<not> declaredStable p k \<lparr>Size = info_Size info, ModUnix = info_ModTime info\<rparr>"
    using Suc.prems(2) by auto
  then have nohit: "\<not> ((if info_Size info = ps' \<and> info_ModTime info = pm' then c' + 1 else 0) \<ge> 3 \<and> info_Size info \<ge> 1)"
    using hit_iff[OF st pk] first_hit[OF reg none pk] by blast
  have k5: "k < 5" using Suc.prems(1) by simp
  have "waitForStableFile_loop e path (t0 + int k * stabilityInterval) k ps' pm' c' =
        waitForStableFile_loop e path (t0 + int (Suc k) * stabilityInterval) (Suc k)
           (info_Size info) (info_ModTime info) (if info_Size info = ps' \<and> info_ModTime info = pm' then c' + 1 else 0)"
    using pk nd nohit k5 assms(2) by (subst loop_step) (auto simp del: of_nat_Suc split: if_splits)
  with eq loopState_Suc[OF st pk] show ?case by metis
qed

lemma at_poll:
  assumes "p = poll e t0 path" and "k \<le> 5"
    and "\<forall>j<k. regularFile (p j) \<and> (\<forall>sg. \<not> declaredStable p j sg)"
  shows "\<exists>ps' pm' c'. loopState p k ps' pm' c' \<and>
           waitForStableFile e t0 path =
           waitForStableFile_loop e path (t0 + int k * stabilityInterval) k ps' pm' c'"
proof -
  have "loopState p 0 (- 1) (- 1) 0" by (simp add: loopState_def)
  from loop_skip[OF this assms] show ?thesis by (simp add: waitForStableFile_def)
qed

lemma result_timeout:
  assumes "p = poll e t0 path"
    and "\<forall>j<5. regularFile (p j) \<and> (\<forall>sg. \<not> declaredStable p j sg)"
  shows "waitForStableFile e t0 path = (Inl (timeoutError path), t0 + 5 * stabilityInterval)"
proof -
  from at_poll[OF assms(1) _ assms(2)] obtain ps' pm' c' where
    eq: "waitForStableFile e t0 path =
       waitForStableFile_loop e path (t0 + int 5 * stabilityInterval) 5 ps' pm' c'" by auto
  show ?thesis unfolding eq by (subst loop_step) simp
qed

lemma result_error:
  assumes "p = poll e t0 path" and "k < 5"
    and "\<forall>j<k. regularFile (p j) \<and> (\<forall>sg. \<not> declaredStable p j sg)"
    and "p k = Inl err"
  shows "waitForStableFile e t0 path = (Inl err, t0 + int k * stabilityInterval)"
proof -
  from at_poll[OF assms(1) _ assms(3)] assms(2) obtain ps' pm' c' where
    eq: "waitForStableFile e t0 path =
       waitForStableFile_loop e path (t0 + int k * stabilityInterval) k ps' pm' c'" by auto
  show ?thesis unfolding eq using assms(1,2,4) by (subst loop_step) (simp del: of_nat_Suc)
qed

lemma result_directory:
  assumes "p = poll e t0 path" and "k < 5"
    and "\<forall>j<k. regularFile (p j) \<and> (\<forall>sg. \<not> declaredStable p j sg)"
    and "p k = Inr info" and "info_IsDir info"
  shows "waitForStableFile e t0 path =
     (Inl (Other (''cannot import directory '' @ fmt_q path)), t0 + int k * stabilityInterval)"
proof -
  from at_poll[OF assms(1) _ assms(3)] assms(2) obtain ps' pm' c' where
    eq: "waitForStableFile e t0 path =
       waitForStableFile_loop e path (t0 + int k * stabilityInterval) k ps' pm' c'" by auto
  show ?thesis unfolding eq using assms(1,2,4,5) by (subst loop_step) (simp del: of_nat_Suc)
qed

lemma result_stable:
  assumes "p = poll e t0 path" and "k < 5"
    and "\<forall>j<k. regularFile (p j) \<and> (\<forall>sg. \<not> declaredStable p j sg)"
    and "declaredStable p k sg"
  shows "waitForStableFile e t0 path = (Inr sg, t0 + int k * stabilityInterval)"
proof -
  from at_poll[OF assms(1) _ assms(3)] assms(2) obtain ps' pm' c' where
    st: "loopState p k ps' pm' c'" and
    eq: "waitForStableFile e t0 path =
       waitForStableFile_loop e path (t0 + int k * stabilityInterval) k ps' pm' c'" by auto
  from assms(4) obtain info where pk: "p k = Inr info" and nd: "\<not> info_IsDir info"
    and sg: "sg = \<lparr>Size = info_Size info, ModUnix = info_ModTime info\<rparr>"
    by (cases "p k") (auto simp: declaredStable_def regularFile_def signatureOf_def dest: spec[of _ k])
  have reg: "\<forall>j\<le>k. regularFile (p j)" using assms(4) by (simp add: declaredStable_def)
  have none: "\<forall>j<k. \<forall>sg. \<not> declaredStable p j sg" using assms(3) by auto
  have hit: "(if info_Size info = ps' \<and> info_ModTime info = pm' then c' + 1 else 0) \<ge> 3 \<and> info_Size info \<ge> 1"
    using hit_iff[OF st pk] first_hit[OF reg none pk] assms(4) sg by blast
  show ?thesis unfolding eq using pk nd hit assms(1,2) sg
    by (subst loop_step) (auto simp del: of_nat_Suc split: if_splits)
qed

text \<open>the count reaches 3 at one poll of the five at most\<close>
lemma declaredStable_first:
  assumes "declaredStable p k sg" and "k < 5" and "j < k"
  shows "\<not> declaredStable p j sg'"
proof
  assume "declaredStable p j sg'"
  then have j3: "unchangedPolls p j = 3" by (simp add: declaredStable_def stabilityChecks_def)
  with unchangedPolls_le[of p j] have "3 \<le> j" by simp
  with assms(2,3) have k: "k = Suc j" by auto
  have "unchangedPolls p k = 3" using assms(1) by (simp add: declaredStable_def stabilityChecks_def)
  with j3 show False unfolding k by (simp split: if_splits)
qed

lemma stable_iff:
  assumes "p = poll e t0 path"
  shows "waitForStableFile e t0 path = (Inr sg, t) \<longleftrightarrow>
     (\<exists>k<5. declaredStable p k sg \<and> t = t0 + int k * stabilityInterval)"
proof
  assume r: "waitForStableFile e t0 path = (Inr sg, t)"
  define Q where "Q j \<longleftrightarrow> regularFile (p j) \<and> (\<forall>sg. \<not> declaredStable p j sg)" for j
  show "\<exists>k<5. declaredStable p k sg \<and> t = t0 + int k * stabilityInterval"
  proof (cases "\<forall>j<5. Q j")
    case True
    then have "\<forall>j<5. regularFile (p j) \<and> (\<forall>sg. \<not> declaredStable p j sg)"
      by (simp add: Q_def)
    from result_timeout[OF assms this] r show ?thesis by simp
  next
    case False
    then obtain j where j: "j < 5" "\<not> Q j" by blast
    define k where "k = (LEAST i. \<not> Q i)"
    have "k \<le> j" unfolding k_def using j(2) by (rule Least_le)
    then have k5: "k < 5" using j(1) by simp
    have nQ: "\<not> Q k" unfolding k_def using j(2) by (rule LeastI[of "\<lambda>i. \<not> Q i"])
    have least: "Q i" if "i < k" for i
      using not_less_Least[of i "\<lambda>i. \<not> Q i"] that unfolding k_def by blast
    have before: "\<forall>j<k. regularFile (p j) \<and> (\<forall>sg. \<not> declaredStable p j sg)"
      using least by (simp add: Q_def)
    show ?thesis
    proof (cases "p k")
      case (Inl err)
      from result_error[OF assms k5 before Inl] r show ?thesis by simp
    next
      case (Inr info)
      show ?thesis
      proof (cases "info_IsDir info")
        case True
        from result_directory[OF assms k5 before Inr True] r show ?thesis by simp
      next
        case False
        with Inr nQ obtain sg' where d: "declaredStable p k sg'"
          unfolding Q_def regularFile_def by auto
        from result_stable[OF assms k5 before d] r have "sg' = sg" "t = t0 + int k * stabilityInterval"
          by simp_all
        with d k5 show ?thesis by blast
      qed
    qed
  qed
next
  assume "\<exists>k<5. declaredStable p k sg \<and> t = t0 + int k * stabilityInterval"
  then obtain k where k: "k < 5" "declaredStable p k sg" "t = t0 + int k * stabilityInterval"
    by blast
  have "\<forall>j<k. regularFile (p j) \<and> (\<forall>sg. \<not> declaredStable p j sg)"
  proof (intro allI impI conjI)
    fix j assume jk: "j < k"
    show "regularFile (p j)" using k(2) jk by (simp add: declaredStable_def)
    fix sg' show "\<not> declaredStable p j sg'" using k(2,1) jk by (rule declaredStable_first)
  qed
  from result_stable[OF assms k(1) this k(2)] k(3) show "waitForStableFile e t0 path = (Inr sg, t)"
    by simp
qed

text \<open>
  Claim C1. \<open>waitForStableFile\<close> stats the path once per interval of a second, poll
  \<open>k\<close> being made \<open>k\<close> intervals after the first. It returns the signature \<open>sg\<close> at
  poll \<open>k\<close> exactly when the file is declared stable there: the count of consecutive
  polls unchanged from the poll before is 3 and the size is at least 1 byte. When all of
  the 5 polls see a file and none declares it stable, it returns the timeout error,
  which is not a not-found error. When a poll fails before the file is stable, the
  error of that poll is returned as it is. \<open>processCandidate\<close> changes nothing but the
  clock on a not-found error, and records the timeout error in the status of the folder.
\<close>

theorem waitForStableFile_polls:
  "(waitForStableFile e t0 path = (Inr sg, t) \<longleftrightarrow>
      (\<exists>k < stabilityChecks + 2. declaredStable (poll e t0 path) k sg \<and>
         t = t0 + int k * stabilityInterval)) \<and>
   ((\<forall>k < stabilityChecks + 2. regularFile (poll e t0 path k) \<and>
         (\<forall>sg'. \<not> declaredStable (poll e t0 path) k sg')) \<longrightarrow>
      waitForStableFile e t0 path =
        (Inl (timeoutError path), t0 + int (stabilityChecks + 2) * stabilityInterval)) \<and>
   \<not> errors_Is (timeoutError path) ErrNotExist \<and>
   (n < stabilityChecks + 2 \<and>
      (\<forall>j<n. regularFile (poll e t0 path j) \<and> (\<forall>sg'. \<not> declaredStable (poll e t0 path) j sg')) \<and>
      poll e t0 path n = Inl err \<longrightarrow>
      waitForStableFile e t0 path = (Inl err, t0 + int n * stabilityInterval)) \<and>
   (waitForStableFile e (clock w) path = (Inl err', t') \<and> errors_Is err' ErrNotExist \<longrightarrow>
      processCandidate e w s r path = (w\<lparr>clock := t'\<rparr>, s, r)) \<and>
   (waitForStableFile e (clock w) path = (Inl (timeoutError path), t') \<longrightarrow>
      processCandidate e w s r path =
        (w\<lparr>clock := t'\<rparr>,
         s\<lparr>statuses := (statuses s)(ID (folder r) \<mapsto>
            (getStatus s (ID (folder r)))\<lparr>LastRuntimeError := Error (timeoutError path)\<rparr>)\<rparr>,
         r))"
proof (intro conjI impI)
  show "waitForStableFile e t0 path = (Inr sg, t) \<longleftrightarrow>
      (\<exists>k < stabilityChecks + 2. declaredStable (poll e t0 path) k sg \<and>
         t = t0 + int k * stabilityInterval)"
    using stable_iff[OF refl, of e t0 path sg t] by (simp add: stabilityChecks_def)
next
  assume "\<forall>k < stabilityChecks + 2. regularFile (poll e t0 path k) \<and>
         (\<forall>sg'. \<not> declaredStable (poll e t0 path) k sg')"
  then have "\<forall>j<5. regularFile (poll e t0 path j) \<and> (\<forall>sg. \<not> declaredStable (poll e t0 path) j sg)"
    by (simp add: stabilityChecks_def)
  from result_timeout[OF refl this]
  show "waitForStableFile e t0 path =
        (Inl (timeoutError path), t0 + int (stabilityChecks + 2) * stabilityInterval)"
    by (simp add: stabilityChecks_def)
next
  show "\<not> errors_Is (timeoutError path) ErrNotExist"
    by (simp add: timeoutError_def)
next
  assume a: "n < stabilityChecks + 2 \<and>
      (\<forall>j<n. regularFile (poll e t0 path j) \<and> (\<forall>sg'. \<not> declaredStable (poll e t0 path) j sg')) \<and>
      poll e t0 path n = Inl err"
  then have n5: "n < 5" by (simp add: stabilityChecks_def)
  from a result_error[OF refl n5, of e t0 path err]
  show "waitForStableFile e t0 path = (Inl err, t0 + int n * stabilityInterval)"
    by blast
next
  assume "waitForStableFile e (clock w) path = (Inl err', t') \<and> errors_Is err' ErrNotExist"
  then show "processCandidate e w s r path = (w\<lparr>clock := t'\<rparr>, s, r)"
    by (simp add: processCandidate_def)
next
  assume "waitForStableFile e (clock w) path = (Inl (timeoutError path), t')"
  then show "processCandidate e w s r path =
        (w\<lparr>clock := t'\<rparr>,
         s\<lparr>statuses := (statuses s)(ID (folder r) \<mapsto>
            (getStatus s (ID (folder r)))\<lparr>LastRuntimeError := Error (timeoutError path)\<rparr>)\<rparr>,
         r)"
    by (simp add: processCandidate_def timeoutError_def setStatus_def)
qed

theorem waitForStableFile_polls_witness:
  "waitForStableFile quietEnv 0 ''a.mp3'' = (Inr \<lparr>Size = 10, ModUnix = 5\<rparr>, 3 * second) \<and>
   waitForStableFile growingEnv 0 ''a.mp3'' = (Inl (timeoutError ''a.mp3''), 5 * second) \<and>
   waitForStableFile vanishingEnv 0 ''a.mp3'' = (Inl ErrNotExist, second) \<and>
   processCandidate vanishingEnv emptyWorld NewService (newRunner musicFolder) ''a.mp3'' =
     (emptyWorld\<lparr>clock := second\<rparr>, NewService, newRunner musicFolder) \<and>
   processCandidate growingEnv emptyWorld NewService (newRunner musicFolder) ''a.mp3'' =
     (emptyWorld\<lparr>clock := 5 * second\<rparr>,
      NewService\<lparr>statuses := [1 \<mapsto> zeroStatus\<lparr>LastRuntimeError := Error (timeoutError ''a.mp3'')\<rparr>]\<rparr>,
      newRunner musicFolder)"
proof -
  let ?f = "''a.mp3''"
  have stable: "declaredStable (poll quietEnv 0 ?f) 3 \<lparr>Size = 10, ModUnix = 5\<rparr>"
    by (simp add: declaredStable_def poll_def quietEnv_def regularFile_def signatureOf_def
        stabilityChecks_def minimumAudioBytes_def eval_nat_numeral)
  have c1: "waitForStableFile quietEnv 0 ?f = (Inr \<lparr>Size = 10, ModUnix = 5\<rparr>, 3 * second)"
  proof -
    have "\<exists>k < stabilityChecks + 2. declaredStable (poll quietEnv 0 ?f) k \<lparr>Size = 10, ModUnix = 5\<rparr> \<and>
         3 * second = 0 + int k * stabilityInterval"
      by (rule exI[of _ 3]) (simp add: stable stabilityChecks_def stabilityInterval_def)
    then show ?thesis
      using waitForStableFile_polls[of quietEnv 0 ?f "\<lparr>Size = 10, ModUnix = 5\<rparr>" "3 * second",
          THEN conjunct1]
      by blast
  qed
  have u0: "unchangedPolls (poll growingEnv 0 ?f) k = 0" for k
    by (cases k) (simp_all add: poll_def growingEnv_def signatureOf_def stabilityInterval_def second_def)
  have never: "\<forall>k < stabilityChecks + 2. regularFile (poll growingEnv 0 ?f k) \<and>
         (\<forall>sg'. \<not> declaredStable (poll growingEnv 0 ?f) k sg')"
  proof -
    have "\<not> declaredStable (poll growingEnv 0 ?f) k sg'" for k sg'
      by (simp add: declaredStable_def u0 stabilityChecks_def)
    moreover have "regularFile (poll growingEnv 0 ?f k)" for k
      by (simp add: regularFile_def poll_def growingEnv_def)
    ultimately show ?thesis by blast
  qed
  have c2: "waitForStableFile growingEnv 0 ?f = (Inl (timeoutError ?f), 5 * second)"
    using waitForStableFile_polls[of growingEnv 0 ?f] never
    by (simp add: stabilityChecks_def stabilityInterval_def)
  have gone: "Suc 0 < stabilityChecks + 2 \<and>
      (\<forall>j<Suc 0. regularFile (poll vanishingEnv 0 ?f j) \<and>
         (\<forall>sg'. \<not> declaredStable (poll vanishingEnv 0 ?f) j sg')) \<and>
      poll vanishingEnv 0 ?f (Suc 0) = Inl ErrNotExist"
    by (simp add: declaredStable_def stabilityChecks_def regularFile_def poll_def vanishingEnv_def
        stabilityInterval_def second_def)
  have c3: "waitForStableFile vanishingEnv 0 ?f = (Inl ErrNotExist, second)"
    using waitForStableFile_polls[of vanishingEnv 0 ?f _ _ "Suc 0" ErrNotExist] gone
    by (simp add: stabilityInterval_def)
  have c4: "processCandidate vanishingEnv emptyWorld NewService (newRunner musicFolder) ?f =
     (emptyWorld\<lparr>clock := second\<rparr>, NewService, newRunner musicFolder)"
    using waitForStableFile_polls[of vanishingEnv 0 ?f _ _ _ _ emptyWorld ErrNotExist second] c3
    by (simp add: emptyWorld_def)
  have c5: "processCandidate growingEnv emptyWorld NewService (newRunner musicFolder) ?f =
     (emptyWorld\<lparr>clock := 5 * second\<rparr>,
      NewService\<lparr>statuses := [1 \<mapsto> zeroStatus\<lparr>LastRuntimeError := Error (timeoutError ?f)\<rparr>]\<rparr>,
      newRunner musicFolder)"
    using waitForStableFile_polls[of growingEnv 0 ?f _ _ _ _ emptyWorld _ "5 * second" NewService "newRunner musicFolder"] c2
    by (simp add: emptyWorld_def NewService_def newRunner_def musicFolder_def getStatus_def)
  from c1 c2 c3 c4 c5 show ?thesis by blast
qed

lemma quiet_stable:
  "waitForStableFile quietEnv 0 ''a.mp3'' = (Inr \<lparr>Size = 10, ModUnix = 5\<rparr>, 3 * second)"
proof -
  have "declaredStable (poll quietEnv 0 ''a.mp3'') 3 \<lparr>Size = 10, ModUnix = 5\<rparr>"
    by (simp add: declaredStable_def poll_def quietEnv_def regularFile_def signatureOf_def
        stabilityChecks_def minimumAudioBytes_def eval_nat_numeral)
  then have "\<exists>k<5. declaredStable (poll quietEnv 0 ''a.mp3'') k \<lparr>Size = 10, ModUnix = 5\<rparr> \<and>
         3 * second = 0 + int k * stabilityInterval"
    by (intro exI[of _ 3]) (simp add: stabilityInterval_def)
  then show ?thesis using stable_iff[OF refl] by blast
qed

subsection \<open>Import of a candidate\<close>

text \<open>
  Claim C2. When the signature at which the file stabilizes is the one recorded as
  imported for the path in the runner's \<open>imported\<close> map, \<open>processCandidate\<close>
  returns with the world (but for the clock, which the polls have moved), the service
  and the runner as they were: there is no import, so no file is copied, no job record
  is created, nothing is queued and no identifier is drawn.
\<close>

theorem processCandidate_skips_imported:
  assumes "waitForStableFile e (clock w) path = (Inr sg, t)" and "imported r path = Some sg"
  shows "processCandidate e w s r path = (w\<lparr>clock := t\<rparr>, s, r) \<and>
         jobs (fst (processCandidate e w s r path)) = jobs w \<and>
         files (fst (processCandidate e w s r path)) = files w \<and>
         queue (fst (processCandidate e w s r path)) = queue w \<and>
         uuid_seq (fst (processCandidate e w s r path)) = uuid_seq w"
  using assms by (simp add: processCandidate_def wasImported_def)

theorem processCandidate_skips_imported_witness:
  "processCandidate quietEnv emptyWorld NewService
     ((newRunner musicFolder)\<lparr>imported := [''a.mp3'' \<mapsto> \<lparr>Size = 10, ModUnix = 5\<rparr>]\<rparr>) ''a.mp3'' =
   (emptyWorld\<lparr>clock := 3 * second\<rparr>, NewService,
    (newRunner musicFolder)\<lparr>imported := [''a.mp3'' \<mapsto> \<lparr>Size = 10, ModUnix = 5\<rparr>]\<rparr>)"
proof -
  have a: "waitForStableFile quietEnv (clock emptyWorld) ''a.mp3'' =
      (Inr \<lparr>Size = 10, ModUnix = 5\<rparr>, 3 * second)"
    using quiet_stable by (simp add: emptyWorld_def)
  have b: "imported ((newRunner musicFolder)\<lparr>imported := [''a.mp3'' \<mapsto> \<lparr>Size = 10, ModUnix = 5\<rparr>]\<rparr>)
      ''a.mp3'' = Some \<lparr>Size = 10, ModUnix = 5\<rparr>"
    by simp
  from processCandidate_skips_imported[OF a b, of NewService] show ?thesis by simp
qed

subsection \<open>Starting a runner: what it leaves as it is\<close>

lemma watchersOnly_refl: "watchersOnly w w"
  by (simp add: watchersOnly_def)

lemma watchersOnly_trans: "watchersOnly w w1 \<Longrightarrow> watchersOnly w1 w2 \<Longrightarrow> watchersOnly w w2"
  unfolding watchersOnly_def by (metis (no_types, lifting) world.surjective world.update_convs(6,7))

lemma watchPath_frame: "watchersOnly w (watchPath w h path)"
  by (simp add: watchersOnly_def watchPath_def split: option.splits)

lemma closeWatcher_frame: "watchersOnly w (closeWatcher w h)"
  by (simp add: watchersOnly_def closeWatcher_def split: option.splits)

lemma statusOnly_refl: "statusOnly k s s"
  by (simp add: statusOnly_def)

lemma statusOnly_trans: "statusOnly k s s1 \<Longrightarrow> statusOnly k s1 s2 \<Longrightarrow> statusOnly k s s2"
  by (simp add: statusOnly_def)

lemma markRuntimeError_frame: "statusOnly k s (markRuntimeError s k err)"
  by (cases err) (simp_all add: statusOnly_def setStatus_def getStatus_def)

lemma walkFn_frame:
  "watchersOnly (fst ws) (fst (walkFn e r h root ws d)) \<and>
   statusOnly (ID (folder r)) (snd ws) (snd (walkFn e r h root ws d))"
  by (simp add: walkFn_def watchersOnly_refl statusOnly_refl watchPath_frame markRuntimeError_frame
      del: markRuntimeError.simps split: option.splits)

lemma walk_frame:
  "watchersOnly (fst ws) (fst (foldl (walkFn e r h root) ws ds)) \<and>
   statusOnly (ID (folder r)) (snd ws) (snd (foldl (walkFn e r h root) ws ds))"
proof (induction ds arbitrary: ws)
  case Nil
  show ?case by (simp add: watchersOnly_refl statusOnly_refl)
next
  case (Cons d ds)
  from Cons.IH[of "walkFn e r h root ws d"] walkFn_frame[of ws e r h root d]
  show ?case by (auto intro: watchersOnly_trans statusOnly_trans)
qed

lemma addWatchedPath_frame:
  assumes "addWatchedPath e w s r root = (res, w1, s1)"
  shows "watchersOnly w w1 \<and> statusOnly (ID (folder r)) s s1"
proof (cases "watcher r")
  case None
  with assms show ?thesis by (simp add: addWatchedPath_def watchersOnly_refl statusOnly_refl)
next
  case (Some h)
  show ?thesis
  proof (cases "watcher_Add e root")
    case (Some err)
    with assms \<open>watcher r = Some h\<close> show ?thesis
      by (simp add: addWatchedPath_def watchersOnly_refl statusOnly_refl)
  next
    case None
    note wa = None
    show ?thesis
    proof (cases "Recursive (folder r)")
      case False
      with assms wa \<open>watcher r = Some h\<close> show ?thesis
        by (auto simp: addWatchedPath_def watchPath_frame statusOnly_refl)
    next
      case True
      from walk_frame[of "(watchPath w h root, s)" e r h root "filepath_WalkDir e root"]
      have "watchersOnly (watchPath w h root) (fst (foldl (walkFn e r h root) (watchPath w h root, s) (filepath_WalkDir e root)))"
       and st: "statusOnly (ID (folder r)) s (snd (foldl (walkFn e r h root) (watchPath w h root, s) (filepath_WalkDir e root)))"
        by simp_all
      then have "watchersOnly w (fst (foldl (walkFn e r h root) (watchPath w h root, s) (filepath_WalkDir e root)))"
        using watchPath_frame watchersOnly_trans by blast
      with st assms wa True \<open>watcher r = Some h\<close> show ?thesis
        by (auto simp: addWatchedPath_def split: prod.splits)
    qed
  qed
qed

lemma addWatchedPath_error:
  "addWatchedPath e w s r root = (Some err, w1, s1) \<Longrightarrow> err \<noteq> ErrFolderAlreadyExists"
  by (auto simp: addWatchedPath_def split: option.splits if_splits prod.splits)

lemma runner_start_frame:
  assumes "runner_start e w s r = (res, w1, s1, r1)"
  shows "watchersOnly w w1 \<and> statusOnly (ID (folder r)) s s1"
proof (cases "fsnotify_NewWatcher e")
  case (Some err)
  with assms show ?thesis by (simp add: runner_start_def watchersOnly_refl statusOnly_refl)
next
  case None
  define w0 where "w0 = w\<lparr>watchers := (watchers w)(next_watcher w \<mapsto> \<lparr>watched = [], closed = False\<rparr>),
                      next_watcher := Suc (next_watcher w)\<rparr>"
  define r0 where "r0 = r\<lparr>watcher := Some (next_watcher w)\<rparr>"
  obtain res' w' s' where a: "addWatchedPath e w0 s r0 (Path (folder r)) = (res', w', s')"
    by (cases "addWatchedPath e w0 s r0 (Path (folder r))") auto
  from addWatchedPath_frame[OF a] have f: "watchersOnly w0 w'" "statusOnly (ID (folder r)) s s'"
    by (simp_all add: r0_def)
  have "watchersOnly w w0" by (simp add: watchersOnly_def w0_def)
  with f have "watchersOnly w w'" using watchersOnly_trans by blast
  then have "watchersOnly w (closeWatcher w' (next_watcher w))"
    using closeWatcher_frame watchersOnly_trans by blast
  with \<open>watchersOnly w w'\<close> f(2) assms None a show ?thesis
    by (auto simp: runner_start_def Let_def w0_def[symmetric] r0_def[symmetric] split: option.splits)
qed

lemma runner_start_error:
  "runner_start e w s r = (Some err, w1, s1, r1) \<Longrightarrow> err \<noteq> ErrFolderAlreadyExists"
  by (auto simp: runner_start_def Let_def split: option.splits prod.splits dest: addWatchedPath_error)

lemma startRunner_fails:
  assumes "startRunner e w s f = (Some err, w1, s1)"
  shows "watchersOnly w w1 \<and> runners s1 = runners s \<and> runners s (ID f) = None \<and>
         err \<noteq> ErrFolderAlreadyExists \<and>
         (\<forall>k. k \<noteq> ID f \<longrightarrow> statuses s1 k = statuses s k) \<and>
         LastImportedAt (getStatus s1 (ID f)) = LastImportedAt (getStatus s (ID f)) \<and>
         LastImportedFile (getStatus s1 (ID f)) = LastImportedFile (getStatus s (ID f)) \<and>
         Active (getStatus s1 (ID f)) = False \<and>
         LastRuntimeError (getStatus s1 (ID f)) = Error err"
proof -
  from assms have none: "runners s (ID f) = None"
    by (auto simp: startRunner_def startRunner_among_def split: if_splits)
  obtain res w' s' r' where rs: "runner_start e w s (newRunner f) = (res, w', s', r')"
    by (cases "runner_start e w s (newRunner f)") auto
  from assms none rs have "res = Some err" "w1 = w'"
    and s1: "s1 = setStatus s' (ID f) (\<lambda>status. status\<lparr>Active := False, LastRuntimeError := Error err\<rparr>)"
    by (auto simp: startRunner_def startRunner_among_def startRunner_register_def
        split: option.splits if_splits)
  from runner_start_frame[OF rs] have "watchersOnly w w'" "statusOnly (ID f) s s'"
    by (simp_all add: newRunner_def)
  with none s1 \<open>w1 = w'\<close> \<open>res = Some err\<close> rs runner_start_error[of e w s "newRunner f" err w' s' r']
  show ?thesis
    by (simp add: statusOnly_def setStatus_def getStatus_def)
qed

lemma ID_less_freshID: "g \<in> set rows \<Longrightarrow> ID g < freshID rows"
proof -
  assume "g \<in> set rows"
  then have "ID g \<in> set (0 # map ID rows)" by simp
  then have "ID g \<le> Max (set (0 # map ID rows))" by (intro Max_ge) simp_all
  then show ?thesis unfolding freshID_def Max.set_eq_fold by simp
qed

lemma delete_created:
  "filter (\<lambda>g. ID g \<noteq> freshID rows) (rows @ [f\<lparr>ID := freshID rows\<rparr>]) = rows"
proof -
  have "\<forall>g\<in>set rows. ID g \<noteq> freshID rows" using ID_less_freshID by fastforce
  then show ?thesis by (simp add: filter_id_conv)
qed

lemma gorm_First_filter:
  "gorm_First e (filter P rows) =
     (case db_error e of
        Some msg \<Rightarrow> Inl (Other msg)
      | None \<Rightarrow> if \<exists>g\<in>set rows. P g then Inr (hd (sort_key ID (filter P rows)))
                else Inl ErrRecordNotFound)"
proof (cases "sort_key ID (filter P rows)")
  case Nil
  then have "filter P rows = []" by (metis length_sort list.size(3) length_0_conv)
  then have "\<not> (\<exists>g\<in>set rows. P g)" by (simp add: filter_empty_conv)
  with Nil show ?thesis by (simp add: gorm_First_def split: option.splits)
next
  case (Cons f fs)
  then have "f \<in> set (filter P rows)" by (metis list.set_intros(1) set_sort)
  then have "\<exists>g\<in>set rows. P g" by auto
  with Cons show ?thesis by (simp add: gorm_First_def split: option.splits)
qed

lemma FindByUserAndPath_None:
  "folderRepo_FindByUserAndPath e w userID p = Inr None \<longleftrightarrow>
     db_error e = None \<and> (\<forall>g\<in>set (folders w). UserID g = userID \<longrightarrow> Path g \<noteq> p)"
  by (auto simp: folderRepo_FindByUserAndPath_def gorm_First_filter split: option.splits)

lemma FindByUserAndPath_Some:
  "(\<exists>g. folderRepo_FindByUserAndPath e w userID p = Inr (Some g)) \<longleftrightarrow>
     db_error e = None \<and> (\<exists>g\<in>set (folders w). UserID g = userID \<and> Path g = p)"
  by (auto simp: folderRepo_FindByUserAndPath_def gorm_First_filter split: option.splits)

lemma FindByUserAndPath_error:
  "folderRepo_FindByUserAndPath e w userID p = Inl err \<Longrightarrow> err \<noteq> ErrFolderAlreadyExists"
  by (auto simp: folderRepo_FindByUserAndPath_def gorm_First_filter split: option.splits if_splits)

subsection \<open>Creating a folder\<close>

text \<open>
  Claim C3. When \<open>CreateUserFolder\<close> is called with \<open>enabled\<close> true, the folder
  \<open>f\<close> has been persisted and its runner fails to start with \<open>err\<close>, then \<open>err\<close> is
  returned, the row of \<open>f\<close> is deleted again (the table is as before the call), the
  status of \<open>f\<close> is cleared and no runner is registered: no enabled folder stays
  persisted without a watch.
\<close>

theorem CreateUserFolder_rolls_back:
  assumes "normalizeFolderPath e w path = Inr p"
    and "folderRepo_FindByUserAndPath e w userID p = Inr None"
    and "folderRepo_Create e w \<lparr>ID = 0, UserID = userID, Path = p, Recursive = recursive,
           Enabled = True, CreatedAt = 0, UpdatedAt = 0\<rparr> = (Inr f, w1)"
    and "startRunner e w1 s f = (Some err, w2, s2)"
  shows "\<exists>w' s'. CreateUserFolder e w s userID path recursive True = (Inl err, w', s') \<and>
           f \<in> set (folders w1) \<and> Enabled f \<and>
           (\<forall>g\<in>set (folders w'). ID g \<noteq> ID f) \<and> folders w' = folders w \<and>
           statuses s' (ID f) = None \<and> runners s' = runners s"
proof -
  from assms(2) have db: "db_error e = None" by (simp add: FindByUserAndPath_None)
  from assms(3) db have f: "f = \<lparr>ID = freshID (folders w), UserID = userID, Path = p,
       Recursive = recursive, Enabled = True, CreatedAt = clock w, UpdatedAt = clock w\<rparr>"
    and w1: "w1 = w\<lparr>folders := folders w @ [f]\<rparr>"
    by (auto simp: folderRepo_Create_def Let_def split: if_splits)
  from startRunner_fails[OF assms(4)] have fr: "watchersOnly w1 w2" "runners s2 = runners s"
    by simp_all
  then have fw2: "folders w2 = folders w @ [f]"
    unfolding watchersOnly_def w1 by (metis world.select_convs(2) world.surjective world.update_convs(2,6,7))
  have del: "filter (\<lambda>g. ID g \<noteq> ID f) (folders w @ [f]) = folders w"
    using delete_created[of "folders w" f] by (simp add: f)
  have res: "CreateUserFolder e w s userID path recursive True =
      (Inl err, snd (folderRepo_Delete e w2 (ID f)), clearStatus s2 (ID f))"
    using assms f by (simp add: CreateUserFolder_def)
  have "folders (snd (folderRepo_Delete e w2 (ID f))) = folders w"
    using db fw2 del by (simp add: folderRepo_Delete_def)
  moreover have "\<forall>g\<in>set (folders w). ID g \<noteq> ID f"
    using ID_less_freshID by (fastforce simp: f)
  ultimately show ?thesis using res fr(2) w1 f
    by (simp add: clearStatus_def)
qed

lemma freshID_Nil: "freshID [] = 1"
  by (simp add: freshID_def)

theorem CreateUserFolder_rolls_back_witness:
  "fst (CreateUserFolder noWatcherEnv emptyWorld NewService 7 ''/music'' False True) =
     Inl (Wrapped ''failed to create filesystem watcher: '' (Other ''too many open files'') []) \<and>
   folders (fst (snd (CreateUserFolder noWatcherEnv emptyWorld NewService 7 ''/music'' False True))) = [] \<and>
   statuses (snd (snd (CreateUserFolder noWatcherEnv emptyWorld NewService 7 ''/music'' False True))) 1 = None \<and>
   runners (snd (snd (CreateUserFolder noWatcherEnv emptyWorld NewService 7 ''/music'' False True))) 1 = None"
proof -
  let ?f = "\<lparr>ID = 1, UserID = 7, Path = ''/music'', Recursive = False, Enabled = True,
             CreatedAt = 0, UpdatedAt = 0\<rparr>"
  let ?w1 = "emptyWorld\<lparr>folders := [?f]\<rparr>"
  let ?err = "Wrapped ''failed to create filesystem watcher: '' (Other ''too many open files'') []"
  have h1: "normalizeFolderPath noWatcherEnv emptyWorld ''/music'' = Inr ''/music''"
    by (simp add: normalizeFolderPath_def noWatcherEnv_def quietEnv_def)
  have h2: "folderRepo_FindByUserAndPath noWatcherEnv emptyWorld 7 ''/music'' = Inr None"
    by (simp add: FindByUserAndPath_None noWatcherEnv_def quietEnv_def emptyWorld_def)
  have h3: "folderRepo_Create noWatcherEnv emptyWorld \<lparr>ID = 0, UserID = 7, Path = ''/music'',
      Recursive = False, Enabled = True, CreatedAt = 0, UpdatedAt = 0\<rparr> = (Inr ?f, ?w1)"
    by (simp add: folderRepo_Create_def noWatcherEnv_def quietEnv_def emptyWorld_def freshID_Nil Let_def)
  have h4: "startRunner noWatcherEnv ?w1 NewService ?f =
      (Some ?err, ?w1, setStatus NewService 1 (\<lambda>status. status\<lparr>Active := False, LastRuntimeError := Error ?err\<rparr>))"
    by (simp add: startRunner_def startRunner_among_def runner_start_def noWatcherEnv_def quietEnv_def
        NewService_def)
  from CreateUserFolder_rolls_back[OF h1 h2 h3 h4]
  show ?thesis by (auto simp: NewService_def emptyWorld_def)
qed

lemma normalizeFolderPath_error:
  "normalizeFolderPath e w path = Inl err \<Longrightarrow> err \<noteq> ErrFolderAlreadyExists"
  by (auto simp: normalizeFolderPath_def Let_def split: if_splits sum.splits)

lemma folderRepo_Create_error:
  "folderRepo_Create e w f = (Inl err, w1) \<Longrightarrow> err \<noteq> ErrFolderAlreadyExists"
  by (auto simp: folderRepo_Create_def Let_def split: if_splits option.splits)

lemma getFolderView_error:
  "getFolderView e w s userID folderID = Inl err \<Longrightarrow> err \<noteq> ErrFolderAlreadyExists"
  by (auto simp: getFolderView_def folderRepo_FindByUserAndID_def gorm_First_filter Let_def
      split: if_splits option.splits sum.splits)

lemma folderRepo_Create_new:
  assumes "db_error e = None" and "\<forall>g\<in>set (folders w). UserID g = UserID f \<longrightarrow> Path g \<noteq> Path f"
  shows "folderRepo_Create e w f =
     (Inr (f\<lparr>ID := freshID (folders w), CreatedAt := clock w, UpdatedAt := clock w\<rparr>),
      w\<lparr>folders := folders w @ [f\<lparr>ID := freshID (folders w), CreatedAt := clock w, UpdatedAt := clock w\<rparr>]\<rparr>)"
  using assms by (auto simp: folderRepo_Create_def Let_def)

lemma getFolderView_created:
  assumes "db_error e = None" and "folders w' = rows @ [f]" and "ID f = freshID rows"
    and "UserID f = userID"
  shows "getFolderView e w' s userID (ID f) = Inr (viewOf s f)"
proof -
  have "\<forall>g\<in>set rows. ID g \<noteq> ID f" using ID_less_freshID assms(3) by fastforce
  then have "filter (\<lambda>g. ID g = ID f \<and> UserID g = userID) (folders w') = [f]"
    using assms(2,4) by (simp add: filter_empty_conv)
  then show ?thesis using assms(1)
    by (simp add: getFolderView_def folderRepo_FindByUserAndID_def gorm_First_def viewOf_def Let_def)
qed

lemma runner_stop_folders: "folders (fst (runner_stop w r)) = folders w"
  by (simp add: runner_stop_def closeWatcher_def Let_def split: option.splits)

lemma FindByUserAndPath_Inl:
  "folderRepo_FindByUserAndPath e w userID p = Inl err \<Longrightarrow> db_error e \<noteq> None"
  by (auto simp: folderRepo_FindByUserAndPath_def gorm_First_filter split: option.splits if_splits)

lemma startRunner_folders:
  assumes "startRunner e w s f = (res, w1, s1)"
  shows "folders w1 = folders w"
proof (cases "runners s (ID f)")
  case (Some r)
  with assms show ?thesis by (simp add: startRunner_def startRunner_among_def)
next
  case None
  obtain res' w' s' r' where rs: "runner_start e w s (newRunner f) = (res', w', s', r')"
    by (cases "runner_start e w s (newRunner f)") auto
  from runner_start_frame[OF rs] have "watchersOnly w w'" by simp
  then have fw: "folders w' = folders w"
    unfolding watchersOnly_def by (metis world.select_convs(2) world.surjective world.update_convs(6,7))
  show ?thesis
  proof (cases res')
    case None
    with assms \<open>runners s (ID f) = None\<close> rs fw show ?thesis
      by (auto simp: startRunner_def startRunner_among_def startRunner_register_def
          runner_stop_folders split: if_splits)
  next
    case (Some err)
    with assms \<open>runners s (ID f) = None\<close> rs fw show ?thesis
      by (auto simp: startRunner_def startRunner_among_def)
  qed
qed

text \<open>
  Claim C4. \<open>CreateUserFolder\<close> fails with \<open>ErrFolderAlreadyExists\<close> exactly when the
  path normalizes, the database answers, and the user already has a folder at the
  normalized path. Folders that other users have at that path do not count: when the
  user has none there, the folder is persisted for the user, and the call returns its
  view, unless the folder is enabled and its runner fails to start (then the error of
  the start is returned).
\<close>

theorem CreateUserFolder_unique_per_owner:
  "(fst (CreateUserFolder e w s userID path recursive enabled) = Inl ErrFolderAlreadyExists \<longleftrightarrow>
      (\<exists>p. normalizeFolderPath e w path = Inr p \<and> db_error e = None \<and>
           (\<exists>g\<in>set (folders w). UserID g = userID \<and> Path g = p))) \<and>
   (normalizeFolderPath e w path = Inr p \<and> db_error e = None \<and>
      (\<forall>g\<in>set (folders w). UserID g = userID \<longrightarrow> Path g \<noteq> p) \<longrightarrow>
      (\<exists>f w1. folderRepo_Create e w \<lparr>ID = 0, UserID = userID, Path = p, Recursive = recursive,
                   Enabled = enabled, CreatedAt = 0, UpdatedAt = 0\<rparr> = (Inr f, w1) \<and>
         UserID f = userID \<and> Path f = p \<and>
         (case (if enabled then fst (startRunner e w1 s f) else None) of
            Some err \<Rightarrow> fst (CreateUserFolder e w s userID path recursive enabled) = Inl err
          | None \<Rightarrow>
              (\<exists>v w' s'. CreateUserFolder e w s userID path recursive enabled = (Inr v, w', s') \<and>
                 Folder v = f \<and> folders w' = folders w @ [f]))))"
proof (intro conjI impI)
  show "fst (CreateUserFolder e w s userID path recursive enabled) = Inl ErrFolderAlreadyExists \<longleftrightarrow>
      (\<exists>p. normalizeFolderPath e w path = Inr p \<and> db_error e = None \<and>
           (\<exists>g\<in>set (folders w). UserID g = userID \<and> Path g = p))"
  proof (cases "normalizeFolderPath e w path")
    case (Inl err)
    with normalizeFolderPath_error[OF Inl] show ?thesis by (simp add: CreateUserFolder_def)
  next
    case (Inr p)
    show ?thesis
    proof (cases "folderRepo_FindByUserAndPath e w userID p")
      case (Inl err)
      with Inr FindByUserAndPath_error[OF Inl] FindByUserAndPath_Inl[OF Inl] show ?thesis
        by (simp add: CreateUserFolder_def)
    next
      case found: (Inr x)
      show ?thesis
      proof (cases x)
        case (Some g)
        with found have "db_error e = None \<and> (\<exists>g\<in>set (folders w). UserID g = userID \<and> Path g = p)"
          using FindByUserAndPath_Some[of e w userID p] by blast
        with found Some Inr show ?thesis
          by (simp add: CreateUserFolder_def)
      next
        case None
        with found have no: "\<not> (db_error e = None \<and> (\<exists>g\<in>set (folders w). UserID g = userID \<and> Path g = p))"
          using FindByUserAndPath_None[of e w userID p] by auto
        have "fst (CreateUserFolder e w s userID path recursive enabled) \<noteq> Inl ErrFolderAlreadyExists"
          using Inr found None
          by (auto simp: CreateUserFolder_def split: prod.splits sum.splits option.splits
              dest: folderRepo_Create_error getFolderView_error startRunner_fails)
        with no Inr show ?thesis by simp
      qed
    qed
  qed
next
  assume a: "normalizeFolderPath e w path = Inr p \<and> db_error e = None \<and>
      (\<forall>g\<in>set (folders w). UserID g = userID \<longrightarrow> Path g \<noteq> p)"
  let ?f0 = "\<lparr>ID = 0, UserID = userID, Path = p, Recursive = recursive,
                   Enabled = enabled, CreatedAt = 0, UpdatedAt = 0\<rparr>"
  define f where "f = ?f0\<lparr>ID := freshID (folders w), CreatedAt := clock w, UpdatedAt := clock w\<rparr>"
  define w1 where "w1 = w\<lparr>folders := folders w @ [f]\<rparr>"
  from a have db: "db_error e = None" and none: "folderRepo_FindByUserAndPath e w userID p = Inr None"
    by (simp_all add: FindByUserAndPath_None)
  have cr: "folderRepo_Create e w ?f0 = (Inr f, w1)"
    using a folderRepo_Create_new[of e w ?f0] by (simp add: f_def w1_def)
  have fprops: "UserID f = userID" "Path f = p" "ID f = freshID (folders w)" "Enabled f = enabled"
    by (simp_all add: f_def)
  have "case (if enabled then fst (startRunner e w1 s f) else None) of
            Some err \<Rightarrow> fst (CreateUserFolder e w s userID path recursive enabled) = Inl err
          | None \<Rightarrow>
              (\<exists>v w' s'. CreateUserFolder e w s userID path recursive enabled = (Inr v, w', s') \<and>
                 Folder v = f \<and> folders w' = folders w @ [f])"
  proof (cases enabled)
    case False
    have "getFolderView e w1 s userID (ID f) = Inr (viewOf s f)"
      using getFolderView_created[OF db _ fprops(3,1), of w1 s] by (simp add: w1_def)
    with False a none cr fprops show ?thesis
      by (simp add: CreateUserFolder_def w1_def viewOf_def makeView_def Let_def)
  next
    case True
    obtain res w2 s2 where sr: "startRunner e w1 s f = (res, w2, s2)"
      by (cases "startRunner e w1 s f") auto
    show ?thesis
    proof (cases res)
      case (Some err)
      with True a none cr fprops sr show ?thesis by (simp add: CreateUserFolder_def)
    next
      case None
      have fw2: "folders w2 = folders w @ [f]" using startRunner_folders[OF sr] by (simp add: w1_def)
      have "getFolderView e w2 s2 userID (ID f) = Inr (viewOf s2 f)"
        using getFolderView_created[OF db fw2 fprops(3,1)] .
      with None True a none cr fprops sr fw2 show ?thesis
        by (simp add: CreateUserFolder_def viewOf_def makeView_def Let_def)
    qed
  qed
  with cr fprops show "\<exists>f w1. folderRepo_Create e w ?f0 = (Inr f, w1) \<and>
         UserID f = userID \<and> Path f = p \<and>
         (case (if enabled then fst (startRunner e w1 s f) else None) of
            Some err \<Rightarrow> fst (CreateUserFolder e w s userID path recursive enabled) = Inl err
          | None \<Rightarrow>
              (\<exists>v w' s'. CreateUserFolder e w s userID path recursive enabled = (Inr v, w', s') \<and>
                 Folder v = f \<and> folders w' = folders w @ [f]))"
    by blast
qed

theorem CreateUserFolder_unique_per_owner_witness:
  "fst (CreateUserFolder quietEnv (emptyWorld\<lparr>folders := [musicFolder]\<rparr>) NewService 7
          ''/music'' False False) = Inl ErrFolderAlreadyExists \<and>
   (\<exists>v w' s'. CreateUserFolder quietEnv (emptyWorld\<lparr>folders := [musicFolder]\<rparr>) NewService 8
          ''/music'' False False = (Inr v, w', s') \<and>
      UserID (Folder v) = 8 \<and> Path (Folder v) = ''/music'' \<and>
      folders w' = [musicFolder, Folder v])"
proof -
  let ?w = "emptyWorld\<lparr>folders := [musicFolder]\<rparr>"
  have n: "normalizeFolderPath quietEnv ?w ''/music'' = Inr ''/music''"
    by (simp add: normalizeFolderPath_def quietEnv_def)
  have db: "db_error quietEnv = None" by (simp add: quietEnv_def)
  have own: "\<exists>g\<in>set (folders ?w). UserID g = 7 \<and> Path g = ''/music''"
    by (simp add: musicFolder_def)
  have other: "\<forall>g\<in>set (folders ?w). UserID g = 8 \<longrightarrow> Path g \<noteq> ''/music''"
    by (simp add: musicFolder_def)
  have c1: "fst (CreateUserFolder quietEnv ?w NewService 7 ''/music'' False False) =
      Inl ErrFolderAlreadyExists"
    using CreateUserFolder_unique_per_owner[of quietEnv ?w NewService 7 "''/music''" False False,
        THEN conjunct1] n db own by blast
  have c2: "\<exists>v w' s'. CreateUserFolder quietEnv ?w NewService 8 ''/music'' False False = (Inr v, w', s') \<and>
      UserID (Folder v) = 8 \<and> Path (Folder v) = ''/music'' \<and> folders w' = [musicFolder, Folder v]"
    using CreateUserFolder_unique_per_owner[of quietEnv ?w NewService 8 "''/music''" False False
        "''/music''", THEN conjunct2] n db other
    by auto
  from c1 c2 show ?thesis by blast
qed











subsection \<open>The registry of runners\<close>








lemma startRunner_status:
  assumes "startRunner e w s f = (res, w1, s1)"
  shows "LastImportedAt (getStatus s1 (ID f)) = LastImportedAt (getStatus s (ID f)) \<and>
         LastImportedFile (getStatus s1 (ID f)) = LastImportedFile (getStatus s (ID f)) \<and>
         Active (getStatus s1 (ID f)) = (res = None) \<and>
         (runners s (ID f) = None \<longrightarrow>
            LastRuntimeError (getStatus s1 (ID f)) = (case res of None \<Rightarrow> [] | Some err \<Rightarrow> Error err))"
proof (cases res)
  case (Some err)
  with startRunner_fails[of e w s f err w1 s1] assms show ?thesis by simp
next
  case None
  show ?thesis
  proof (cases "runners s (ID f)")
    case (Some r)
    with assms None show ?thesis
      by (auto simp: startRunner_def startRunner_among_def getStatus_def)
  next
    case absent: None
    obtain res' w' s' r' where rs: "runner_start e w s (newRunner f) = (res', w', s', r')"
      by (cases "runner_start e w s (newRunner f)") auto
    from runner_start_frame[OF rs] have st: "statusOnly (ID f) s s'" by (simp add: newRunner_def)
    then have "runners s' (ID f) = None" using absent by (simp add: statusOnly_def)
    with assms None absent rs
    have "s1 = s'\<lparr>runners := (runners s')(ID f \<mapsto> r'),
           statuses := (statuses s')(ID f \<mapsto>
             (getStatus s' (ID f))\<lparr>Active := True, LastRuntimeError := []\<rparr>)\<rparr>"
      by (auto simp: startRunner_def startRunner_among_def startRunner_register_def
          split: option.splits)
    with st None absent show ?thesis by (simp add: statusOnly_def getStatus_def)
  qed
qed

lemma stopRunner_status:
  "getStatus (snd (stopRunner w s folderID)) folderID = (getStatus s folderID)\<lparr>Active := False\<rparr> \<and>
   runners (snd (stopRunner w s folderID)) folderID = None"
  by (simp add: stopRunner_def Let_def getStatus_def split: option.splits)

text \<open>
  Claim C6, as amended. The status of a folder is created lazily: a new service has no
  status, reading a missing status gives the zero value, and a write stores the entry.
  It is cleared when the folder is deleted. Disabling the folder (\<open>stopRunner\<close>) flips
  \<open>Active\<close> and nothing else. Re-enabling it (\<open>startRunner\<close>, the runner being gone)
  keeps \<open>LastImportedAt\<close> and \<open>LastImportedFile\<close>, sets \<open>Active\<close> to whether the
  runner started, and resets \<open>LastRuntimeError\<close>: to the empty string when the runner
  started, to the error of the start when it did not.
\<close>

theorem runtimeStatus_lifecycle:
  "statuses NewService = Map.empty \<and>
   (statuses s folderID = None \<longrightarrow> getStatus s folderID = zeroStatus) \<and>
   statuses (setStatus s folderID update) folderID = Some (update (getStatus s folderID)) \<and>
   (folderRepo_FindByUserAndID e w userID folderID = Inr f \<longrightarrow>
      statuses (snd (snd (DeleteUserFolder e w s userID folderID))) folderID = None) \<and>
   getStatus (snd (stopRunner w s folderID)) folderID = (getStatus s folderID)\<lparr>Active := False\<rparr> \<and>
   (ID f = folderID \<and> stopRunner w s folderID = (w1, s1) \<and> startRunner e w1 s1 f = (res, w2, s2) \<longrightarrow>
      LastImportedAt (getStatus s2 folderID) = LastImportedAt (getStatus s folderID) \<and>
      LastImportedFile (getStatus s2 folderID) = LastImportedFile (getStatus s folderID) \<and>
      Active (getStatus s2 folderID) = (res = None) \<and>
      LastRuntimeError (getStatus s2 folderID) = (case res of None \<Rightarrow> [] | Some err \<Rightarrow> Error err))"
proof (intro conjI impI)
  show "statuses NewService = Map.empty" by (simp add: NewService_def)
  show "getStatus s folderID = zeroStatus" if "statuses s folderID = None"
    using that by (simp add: getStatus_def)
  show "statuses (setStatus s folderID update) folderID = Some (update (getStatus s folderID))"
    by (simp add: setStatus_def)
  show "statuses (snd (snd (DeleteUserFolder e w s userID folderID))) folderID = None"
    if "folderRepo_FindByUserAndID e w userID folderID = Inr f"
    using that by (simp add: DeleteUserFolder_def clearStatus_def split: prod.splits)
  show "getStatus (snd (stopRunner w s folderID)) folderID = (getStatus s folderID)\<lparr>Active := False\<rparr>"
    by (simp add: stopRunner_status)
next
  assume a: "ID f = folderID \<and> stopRunner w s folderID = (w1, s1) \<and> startRunner e w1 s1 f = (res, w2, s2)"
  then have s1: "getStatus s1 folderID = (getStatus s folderID)\<lparr>Active := False\<rparr>"
    and r1: "runners s1 (ID f) = None"
    using stopRunner_status[of w s folderID] by simp_all
  from a startRunner_status[of e w1 s1 f res w2 s2] s1 r1
  show "LastImportedAt (getStatus s2 folderID) = LastImportedAt (getStatus s folderID)"
    and "LastImportedFile (getStatus s2 folderID) = LastImportedFile (getStatus s folderID)"
    and "Active (getStatus s2 folderID) = (res = None)"
    and "LastRuntimeError (getStatus s2 folderID) = (case res of None \<Rightarrow> [] | Some err \<Rightarrow> Error err)"
    by simp_all
qed

lemma stop_busy:
  "stopRunner busyWorld busyService 1 =
     (busyWorld\<lparr>watchers := [0 \<mapsto> \<lparr>watched = [''/music''], closed = True\<rparr>]\<rparr>,
      \<lparr>runners = Map.empty,
       statuses = [1 \<mapsto> \<lparr>Active = False, LastRuntimeError = ''watcher error: queue overflow'',
                          LastImportedAt = Some 3, LastImportedFile = ''/music/a.mp3''\<rparr>]\<rparr>)"
  by (simp add: stopRunner_def busyService_def busyWorld_def emptyWorld_def runner_stop_def
      newRunner_def closeWatcher_def getStatus_def Let_def)

lemma restart_busy:
  "startRunner quietEnv (busyWorld\<lparr>watchers := [0 \<mapsto> \<lparr>watched = [''/music''], closed = True\<rparr>]\<rparr>)
     \<lparr>runners = Map.empty,
      statuses = [1 \<mapsto> \<lparr>Active = False, LastRuntimeError = ''watcher error: queue overflow'',
                         LastImportedAt = Some 3, LastImportedFile = ''/music/a.mp3''\<rparr>]\<rparr> musicFolder =
   (None,
    busyWorld\<lparr>watchers := [0 \<mapsto> \<lparr>watched = [''/music''], closed = True\<rparr>,
                            1 \<mapsto> \<lparr>watched = [''/music''], closed = False\<rparr>], next_watcher := 2\<rparr>,
    \<lparr>runners = [1 \<mapsto> (newRunner musicFolder)\<lparr>watcher := Some 1\<rparr>],
     statuses = [1 \<mapsto> \<lparr>Active = True, LastRuntimeError = [],
                        LastImportedAt = Some 3, LastImportedFile = ''/music/a.mp3''\<rparr>]\<rparr>)"
  by (simp add: startRunner_def startRunner_among_def startRunner_register_def runner_start_def
      addWatchedPath_def watchPath_def quietEnv_def busyWorld_def emptyWorld_def newRunner_def
      musicFolder_def getStatus_def Let_def)

theorem runtimeStatus_lifecycle_witness:
  "getStatus NewService 1 = zeroStatus \<and>
   statuses (snd (snd (DeleteUserFolder quietEnv busyWorld busyService 7 1))) 1 = None \<and>
   LastImportedAt (getStatus (snd (snd (startRunner quietEnv (fst (stopRunner busyWorld busyService 1))
      (snd (stopRunner busyWorld busyService 1)) musicFolder))) 1) = Some 3 \<and>
   LastImportedFile (getStatus (snd (snd (startRunner quietEnv (fst (stopRunner busyWorld busyService 1))
      (snd (stopRunner busyWorld busyService 1)) musicFolder))) 1) = ''/music/a.mp3'' \<and>
   Active (getStatus (snd (snd (startRunner quietEnv (fst (stopRunner busyWorld busyService 1))
      (snd (stopRunner busyWorld busyService 1)) musicFolder))) 1)"
proof -
  let ?stop = "stopRunner busyWorld busyService 1"
  let ?start = "startRunner quietEnv (fst ?stop) (snd ?stop) musicFolder"
  have h0: "statuses NewService 1 = None" by (simp add: NewService_def)
  have h1: "folderRepo_FindByUserAndID quietEnv busyWorld 7 1 = Inr musicFolder"
    by (simp add: folderRepo_FindByUserAndID_def gorm_First_def quietEnv_def busyWorld_def
        emptyWorld_def musicFolder_def)
  have h2: "ID musicFolder = 1 \<and> stopRunner busyWorld busyService 1 = (fst ?stop, snd ?stop) \<and>
      startRunner quietEnv (fst ?stop) (snd ?stop) musicFolder = (fst ?start, fst (snd ?start), snd (snd ?start))"
    by (simp add: musicFolder_def)
  have res: "fst ?start = None" by (simp only: stop_busy restart_busy fst_conv snd_conv)
  from runtimeStatus_lifecycle[of NewService 1 _ quietEnv busyWorld 7 musicFolder] h0
  have c1: "getStatus NewService 1 = zeroStatus" by blast
  from runtimeStatus_lifecycle[of busyService 1 _ quietEnv busyWorld 7 musicFolder] h1
  have c2: "statuses (snd (snd (DeleteUserFolder quietEnv busyWorld busyService 7 1))) 1 = None"
    by blast
  from runtimeStatus_lifecycle[of busyService 1 _ quietEnv busyWorld 7 musicFolder
      "fst ?stop" "snd ?stop" "fst ?start" "fst (snd ?start)" "snd (snd ?start)"] h2
  have "LastImportedAt (getStatus (snd (snd ?start)) 1) = LastImportedAt (getStatus busyService 1)"
    and "LastImportedFile (getStatus (snd (snd ?start)) 1) = LastImportedFile (getStatus busyService 1)"
    and "Active (getStatus (snd (snd ?start)) 1) = (fst ?start = None)"
    by blast+
  with res c1 c2 show ?thesis by (simp add: getStatus_def busyService_def)
qed

lemma disable_busy:
  "SetUserFolderEnabled quietEnv busyWorld busyService 7 1 False =
     (Inr \<lparr>Active = False, LastRuntimeError = ''watcher error: queue overflow'',
           LastImportedAt = Some 3, LastImportedFile = ''/music/a.mp3'',
           Folder = musicFolder\<lparr>Enabled := False\<rparr>\<rparr>,
      busyWorld\<lparr>folders := [musicFolder\<lparr>Enabled := False\<rparr>],
        watchers := [0 \<mapsto> \<lparr>watched = [''/music''], closed = True\<rparr>]\<rparr>,
      \<lparr>runners = Map.empty,
       statuses = [1 \<mapsto> \<lparr>Active = False, LastRuntimeError = ''watcher error: queue overflow'',
                          LastImportedAt = Some 3, LastImportedFile = ''/music/a.mp3''\<rparr>]\<rparr>)"
  by (simp add: SetUserFolderEnabled_def folderRepo_FindByUserAndID_def gorm_First_def
      folderRepo_Update_def getFolderView_def makeView_def
      stopRunner_def busyService_def busyWorld_def emptyWorld_def runner_stop_def
      newRunner_def closeWatcher_def getStatus_def Let_def quietEnv_def musicFolder_def)

lemma enable_idle:
  "SetUserFolderEnabled quietEnv
     (busyWorld\<lparr>folders := [musicFolder\<lparr>Enabled := False\<rparr>],
        watchers := [0 \<mapsto> \<lparr>watched = [''/music''], closed = True\<rparr>]\<rparr>)
     \<lparr>runners = Map.empty,
      statuses = [1 \<mapsto> \<lparr>Active = False, LastRuntimeError = ''watcher error: queue overflow'',
                         LastImportedAt = Some 3, LastImportedFile = ''/music/a.mp3''\<rparr>]\<rparr> 7 1 True =
     (Inr \<lparr>Active = True, LastRuntimeError = [],
           LastImportedAt = Some 3, LastImportedFile = ''/music/a.mp3'',
           Folder = musicFolder\<rparr>,
      busyWorld\<lparr>watchers := [0 \<mapsto> \<lparr>watched = [''/music''], closed = True\<rparr>,
                              1 \<mapsto> \<lparr>watched = [''/music''], closed = False\<rparr>], next_watcher := 2\<rparr>,
      \<lparr>runners = [1 \<mapsto> (newRunner musicFolder)\<lparr>watcher := Some 1\<rparr>],
       statuses = [1 \<mapsto> \<lparr>Active = True, LastRuntimeError = [],
                          LastImportedAt = Some 3, LastImportedFile = ''/music/a.mp3''\<rparr>]\<rparr>)"
  by (simp add: SetUserFolderEnabled_def folderRepo_FindByUserAndID_def gorm_First_def
      folderRepo_Update_def getFolderView_def makeView_def
      startRunner_def startRunner_among_def startRunner_register_def runner_start_def
      addWatchedPath_def watchPath_def quietEnv_def busyWorld_def emptyWorld_def newRunner_def
      musicFolder_def getStatus_def Let_def)

text \<open>
  Claim C6 as stated fails: disabling and re-enabling a folder whose status shows a
  runtime error leaves the status without the error.
\<close>

theorem toggle_resets_error:
  "LastRuntimeError (getStatus (snd (snd (SetUserFolderEnabled quietEnv
      (fst (snd (SetUserFolderEnabled quietEnv busyWorld busyService 7 1 False)))
      (snd (snd (SetUserFolderEnabled quietEnv busyWorld busyService 7 1 False))) 7 1 True))) 1) \<noteq>
   LastRuntimeError (getStatus busyService 1)"
  by (simp only: disable_busy enable_idle fst_conv snd_conv) (simp add: getStatus_def busyService_def)

subsection \<open>Listing the folders of a user\<close>

text \<open>
  Claim C7. When the database answers, \<open>ListUserFolders\<close> returns one view for each
  folder of the user, and for no other folder, in the order of their paths. Each view
  carries the error and the last import of the folder's current status (the zero status
  when there is none), and it is active when the folder is enabled and its status is
  active: the view of a disabled folder is not active, whatever the status map holds.
\<close>

theorem ListUserFolders_views:
  "db_error e = None \<longrightarrow>
     (\<exists>views. ListUserFolders e w s userID = Inr views \<and>
        map Folder views = sort_key Path (filter (\<lambda>f. UserID f = userID) (folders w)) \<and>
        set (map Folder views) = {f \<in> set (folders w). UserID f = userID} \<and>
        (\<forall>v\<in>set views.
           LastRuntimeError v = LastRuntimeError (getStatus s (ID (Folder v))) \<and>
           LastImportedAt v = LastImportedAt (getStatus s (ID (Folder v))) \<and>
           LastImportedFile v = LastImportedFile (getStatus s (ID (Folder v))) \<and>
           Active v = (Enabled (Folder v) \<and> Active (getStatus s (ID (Folder v)))) \<and>
           (\<not> Enabled (Folder v) \<longrightarrow> \<not> Active v)))"
proof
  assume db: "db_error e = None"
  let ?fs = "sort_key Path (filter (\<lambda>f. UserID f = userID) (folders w))"
  have r: "ListUserFolders e w s userID = Inr (map (viewOf s) ?fs)"
    using db by (simp add: ListUserFolders_def folderRepo_FindByUser_def gorm_Find_def)
  have f: "Folder (viewOf s g) = g" for g by (simp add: viewOf_def makeView_def Let_def)
  have m: "map Folder (map (viewOf s) ?fs) = ?fs" by (simp add: f comp_def)
  have v: "LastRuntimeError (viewOf s g) = LastRuntimeError (getStatus s (ID g)) \<and>
           LastImportedAt (viewOf s g) = LastImportedAt (getStatus s (ID g)) \<and>
           LastImportedFile (viewOf s g) = LastImportedFile (getStatus s (ID g)) \<and>
           Active (viewOf s g) = (Enabled g \<and> Active (getStatus s (ID g)))" for g
    by (simp add: viewOf_def makeView_def Let_def)
  show "\<exists>views. ListUserFolders e w s userID = Inr views \<and>
        map Folder views = ?fs \<and>
        set (map Folder views) = {f \<in> set (folders w). UserID f = userID} \<and>
        (\<forall>v\<in>set views.
           LastRuntimeError v = LastRuntimeError (getStatus s (ID (Folder v))) \<and>
           LastImportedAt v = LastImportedAt (getStatus s (ID (Folder v))) \<and>
           LastImportedFile v = LastImportedFile (getStatus s (ID (Folder v))) \<and>
           Active v = (Enabled (Folder v) \<and> Active (getStatus s (ID (Folder v)))) \<and>
           (\<not> Enabled (Folder v) \<longrightarrow> \<not> Active v))"
  proof (intro exI conjI)
    show "ListUserFolders e w s userID = Inr (map (viewOf s) ?fs)" by (rule r)
    show "map Folder (map (viewOf s) ?fs) = ?fs" by (rule m)
    show "set (map Folder (map (viewOf s) ?fs)) = {f \<in> set (folders w). UserID f = userID}"
      unfolding m by auto
    show "\<forall>v\<in>set (map (viewOf s) ?fs).
           LastRuntimeError v = LastRuntimeError (getStatus s (ID (Folder v))) \<and>
           LastImportedAt v = LastImportedAt (getStatus s (ID (Folder v))) \<and>
           LastImportedFile v = LastImportedFile (getStatus s (ID (Folder v))) \<and>
           Active v = (Enabled (Folder v) \<and> Active (getStatus s (ID (Folder v)))) \<and>
           (\<not> Enabled (Folder v) \<longrightarrow> \<not> Active v)"
      using v f by auto
  qed
qed

theorem ListUserFolders_views_witness:
  "\<exists>views. ListUserFolders quietEnv twoFolders staleService 7 = Inr views \<and>
      map Folder views = [musicFolder, podcastFolder] \<and> map Active views = [True, False] \<and>
      map LastImportedFile views = [[], ''/podcasts/e1.mp3'']"
proof -
  have db: "db_error quietEnv = None" by (simp add: quietEnv_def)
  from ListUserFolders_views[of quietEnv twoFolders staleService 7, THEN mp, OF db]
  obtain views where all: "ListUserFolders quietEnv twoFolders staleService 7 = Inr views \<and>
        map Folder views = sort_key Path (filter (\<lambda>f. UserID f = 7) (folders twoFolders)) \<and>
        set (map Folder views) = {f \<in> set (folders twoFolders). UserID f = 7} \<and>
        (\<forall>v\<in>set views.
           LastRuntimeError v = LastRuntimeError (getStatus staleService (ID (Folder v))) \<and>
           LastImportedAt v = LastImportedAt (getStatus staleService (ID (Folder v))) \<and>
           LastImportedFile v = LastImportedFile (getStatus staleService (ID (Folder v))) \<and>
           Active v = (Enabled (Folder v) \<and> Active (getStatus staleService (ID (Folder v)))) \<and>
           (\<not> Enabled (Folder v) \<longrightarrow> \<not> Active v))" ..
  from all have r: "ListUserFolders quietEnv twoFolders staleService 7 = Inr views"
    by (rule conjunct1)
  from all have m: "map Folder views = sort_key Path (filter (\<lambda>f. UserID f = 7) (folders twoFolders))"
    by (elim conjE)
  from all have each: "\<forall>v\<in>set views.
           LastRuntimeError v = LastRuntimeError (getStatus staleService (ID (Folder v))) \<and>
           LastImportedAt v = LastImportedAt (getStatus staleService (ID (Folder v))) \<and>
           LastImportedFile v = LastImportedFile (getStatus staleService (ID (Folder v))) \<and>
           Active v = (Enabled (Folder v) \<and> Active (getStatus staleService (ID (Folder v)))) \<and>
           (\<not> Enabled (Folder v) \<longrightarrow> \<not> Active v)"
    by (elim conjE)
  have act: "Active v = (Enabled (Folder v) \<and> Active (getStatus staleService (ID (Folder v))))"
    if "v \<in> set views" for v using bspec[OF each that] by (elim conjE)
  have lif: "LastImportedFile v = LastImportedFile (getStatus staleService (ID (Folder v)))"
    if "v \<in> set views" for v using bspec[OF each that] by (elim conjE)
  have le: "\<not> ''/podcasts'' \<le> ''/music''" by (simp add: less_eq_char_def less_char_def)
  have fs: "map Folder views = [musicFolder, podcastFolder]"
    using m le by (simp add: twoFolders_def emptyWorld_def musicFolder_def podcastFolder_def)
  have "map Active views = map (\<lambda>f. Enabled f \<and> Active (getStatus staleService (ID f))) (map Folder views)"
    unfolding map_map comp_def by (rule map_cong[OF refl]) (rule act)
  then have a: "map Active views = [True, False]"
    unfolding fs by (simp add: musicFolder_def podcastFolder_def getStatus_def staleService_def zeroStatus_def)
  have "map LastImportedFile views = map (\<lambda>f. LastImportedFile (getStatus staleService (ID f))) (map Folder views)"
    unfolding map_map comp_def by (rule map_cong[OF refl]) (rule lif)
  then have b: "map LastImportedFile views = [[], ''/podcasts/e1.mp3'']"
    unfolding fs by (simp add: musicFolder_def podcastFolder_def getStatus_def staleService_def zeroStatus_def)
  from r fs a b show ?thesis by (intro exI[of _ views] conjI)
qed

subsection \<open>Auto-transcription\<close>

text \<open>What \<open>maybeQueueAutoTranscription\<close> does once a profile is selected.\<close>

lemma maybeQueue_triggered:
  assumes "userRepo_FindByID e userID = Inr user" and "AutoTranscriptionEnabled user"
    and "selectProfile e user = Some profile"
  shows "maybeQueueAutoTranscription e w userID job =
     (case db_error e of
        Some msg \<Rightarrow> (w, (applyProfile job profile)\<lparr>Status := StatusUploaded\<rparr>)
      | None \<Rightarrow>
          (case taskQueue_EnqueueJob e (TranscriptionJob.ID job) of
             Some err \<Rightarrow>
               (w\<lparr>jobs := map (\<lambda>j. if TranscriptionJob.ID j = TranscriptionJob.ID job
                                    then (applyProfile job profile)\<lparr>Status := StatusUploaded\<rparr> else j) (jobs w)\<rparr>,
                (applyProfile job profile)\<lparr>Status := StatusUploaded\<rparr>)
           | None \<Rightarrow>
               (w\<lparr>jobs := map (\<lambda>j. if TranscriptionJob.ID j = TranscriptionJob.ID job
                                    then applyProfile job profile else j) (jobs w),
                  queue := queue w @ [TranscriptionJob.ID job]\<rparr>, applyProfile job profile)))"
proof -
  have id: "TranscriptionJob.ID (applyProfile job profile) = TranscriptionJob.ID job"
    by (simp add: applyProfile_def)
  have twice: "map (\<lambda>j. if TranscriptionJob.ID j = TranscriptionJob.ID job then a else j)
         (map (\<lambda>j. if TranscriptionJob.ID j = TranscriptionJob.ID job then b else j) rows) =
       map (\<lambda>j. if TranscriptionJob.ID j = TranscriptionJob.ID job then a else j) rows"
    if "TranscriptionJob.ID b = TranscriptionJob.ID job" for a b rows
    using that by (induction rows) auto
  show ?thesis
    using assms
    by (simp add: maybeQueueAutoTranscription_def jobRepo_Update_def taskQueue_Enqueue_def Let_def
        id twice split: option.splits)
qed

lemma maybeQueue_idle:
  assumes "\<not> (\<exists>user profile. userRepo_FindByID e userID = Inr user \<and> AutoTranscriptionEnabled user \<and>
      selectProfile e user = Some profile)"
  shows "maybeQueueAutoTranscription e w userID job = (w, job)"
  using assms by (auto simp: maybeQueueAutoTranscription_def split: sum.splits option.splits)

lemma pending_is_queued:
  assumes "\<forall>j\<in>set (jobs w). TranscriptionJob.ID j = TranscriptionJob.ID job \<longrightarrow> Status j \<noteq> StatusPending"
  shows "\<forall>j\<in>set (jobs (fst (maybeQueueAutoTranscription e w userID job))).
           TranscriptionJob.ID j = TranscriptionJob.ID job \<and> Status j = StatusPending \<longrightarrow>
           TranscriptionJob.ID job \<in> set (queue (fst (maybeQueueAutoTranscription e w userID job)))"
proof (cases "\<exists>user profile. userRepo_FindByID e userID = Inr user \<and> AutoTranscriptionEnabled user \<and>
      selectProfile e user = Some profile")
  case False
  from maybeQueue_idle[OF False] assms show ?thesis by auto
next
  case True
  then obtain user profile where t: "userRepo_FindByID e userID = Inr user"
    "AutoTranscriptionEnabled user" "selectProfile e user = Some profile" by blast
  show ?thesis
    using assms unfolding maybeQueue_triggered[OF t]
    by (auto split: option.splits)
qed

text \<open>
  Claim C8. For a job whose stored row is not pending (an imported job is stored as
  uploaded): after \<open>maybeQueueAutoTranscription\<close> a row of the job is pending only
  if the job is in the queue. When auto-transcription is triggered (the user has it
  switched on and a profile is found), the pending status has been persisted and the
  queue refuses the job, then the row, which was pending, is uploaded again with the
  parameters of the profile, the job handed back is uploaded, and the queue is as it
  was.
\<close>

theorem enqueue_failure_rolls_back:
  "(\<forall>j\<in>set (jobs w). TranscriptionJob.ID j = TranscriptionJob.ID job \<longrightarrow> Status j \<noteq> StatusPending) \<longrightarrow>
     (\<forall>j\<in>set (jobs (fst (maybeQueueAutoTranscription e w userID job))).
        TranscriptionJob.ID j = TranscriptionJob.ID job \<and> Status j = StatusPending \<longrightarrow>
        TranscriptionJob.ID job \<in> set (queue (fst (maybeQueueAutoTranscription e w userID job)))) \<and>
     (userRepo_FindByID e userID = Inr user \<and> AutoTranscriptionEnabled user \<and>
      selectProfile e user = Some profile \<and>
      fst (jobRepo_Update e w (applyProfile job profile)) = None \<and>
      taskQueue_EnqueueJob e (TranscriptionJob.ID job) = Some err \<longrightarrow>
        (\<forall>j\<in>set (jobs (snd (jobRepo_Update e w (applyProfile job profile)))).
           TranscriptionJob.ID j = TranscriptionJob.ID job \<longrightarrow> Status j = StatusPending) \<and>
        maybeQueueAutoTranscription e w userID job =
          (w\<lparr>jobs := map (\<lambda>j. if TranscriptionJob.ID j = TranscriptionJob.ID job
                               then (applyProfile job profile)\<lparr>Status := StatusUploaded\<rparr> else j)
                          (jobs w)\<rparr>,
           (applyProfile job profile)\<lparr>Status := StatusUploaded\<rparr>) \<and>
        (\<forall>j\<in>set (jobs (fst (maybeQueueAutoTranscription e w userID job))).
           TranscriptionJob.ID j = TranscriptionJob.ID job \<longrightarrow> Status j = StatusUploaded) \<and>
        queue (fst (maybeQueueAutoTranscription e w userID job)) = queue w)"
proof (intro impI conjI)
  assume a: "\<forall>j\<in>set (jobs w). TranscriptionJob.ID j = TranscriptionJob.ID job \<longrightarrow> Status j \<noteq> StatusPending"
  show "\<forall>j\<in>set (jobs (fst (maybeQueueAutoTranscription e w userID job))).
        TranscriptionJob.ID j = TranscriptionJob.ID job \<and> Status j = StatusPending \<longrightarrow>
        TranscriptionJob.ID job \<in> set (queue (fst (maybeQueueAutoTranscription e w userID job)))"
    using a by (rule pending_is_queued)
next
  assume t: "userRepo_FindByID e userID = Inr user \<and> AutoTranscriptionEnabled user \<and>
      selectProfile e user = Some profile \<and>
      fst (jobRepo_Update e w (applyProfile job profile)) = None \<and>
      taskQueue_EnqueueJob e (TranscriptionJob.ID job) = Some err"
  then have db: "db_error e = None" by (auto simp: jobRepo_Update_def split: option.splits)
  from t have t3: "userRepo_FindByID e userID = Inr user" "AutoTranscriptionEnabled user"
    "selectProfile e user = Some profile" by simp_all
  have r: "maybeQueueAutoTranscription e w userID job =
          (w\<lparr>jobs := map (\<lambda>j. if TranscriptionJob.ID j = TranscriptionJob.ID job
                               then (applyProfile job profile)\<lparr>Status := StatusUploaded\<rparr> else j)
                          (jobs w)\<rparr>,
           (applyProfile job profile)\<lparr>Status := StatusUploaded\<rparr>)"
    using t db unfolding maybeQueue_triggered[OF t3] by simp
  show "\<forall>j\<in>set (jobs (snd (jobRepo_Update e w (applyProfile job profile)))).
           TranscriptionJob.ID j = TranscriptionJob.ID job \<longrightarrow> Status j = StatusPending"
    using db by (auto simp: jobRepo_Update_def applyProfile_def)
  show "maybeQueueAutoTranscription e w userID job =
          (w\<lparr>jobs := map (\<lambda>j. if TranscriptionJob.ID j = TranscriptionJob.ID job
                               then (applyProfile job profile)\<lparr>Status := StatusUploaded\<rparr> else j)
                          (jobs w)\<rparr>,
           (applyProfile job profile)\<lparr>Status := StatusUploaded\<rparr>)"
    by (rule r)
  show "\<forall>j\<in>set (jobs (fst (maybeQueueAutoTranscription e w userID job))).
           TranscriptionJob.ID j = TranscriptionJob.ID job \<longrightarrow> Status j = StatusUploaded"
    unfolding r by auto
  show "queue (fst (maybeQueueAutoTranscription e w userID job)) = queue w"
    unfolding r by simp
qed

theorem enqueue_failure_rolls_back_witness:
  "maybeQueueAutoTranscription fullQueueEnv
      (emptyWorld\<lparr>jobs := [newJob ''u'' ''uploads/u.mp3'' ''a.mp3'']\<rparr>) 7
      (newJob ''u'' ''uploads/u.mp3'' ''a.mp3'') =
    (emptyWorld\<lparr>jobs := [(newJob ''u'' ''uploads/u.mp3'' ''a.mp3'')
        \<lparr>TranscriptionJob.Parameters := \<lparr>Diarize = True, Settings = ''large''\<rparr>, Diarization := True\<rparr>]\<rparr>,
     (newJob ''u'' ''uploads/u.mp3'' ''a.mp3'')
        \<lparr>TranscriptionJob.Parameters := \<lparr>Diarize = True, Settings = ''large''\<rparr>, Diarization := True\<rparr>) \<and>
   Status (newJob ''u'' ''uploads/u.mp3'' ''a.mp3'') = StatusUploaded"
proof -
  let ?job = "newJob ''u'' ''uploads/u.mp3'' ''a.mp3''"
  let ?w = "emptyWorld\<lparr>jobs := [?job]\<rparr>"
  let ?user = "\<lparr>AutoTranscriptionEnabled = True, DefaultProfileID = None\<rparr>"
  let ?profile = "\<lparr>Parameters = \<lparr>Diarize = True, Settings = ''large''\<rparr>\<rparr>"
  have h0: "\<forall>j\<in>set (jobs ?w). TranscriptionJob.ID j = TranscriptionJob.ID ?job \<longrightarrow> Status j \<noteq> StatusPending"
    by (simp add: newJob_def)
  have h1: "userRepo_FindByID fullQueueEnv 7 = Inr ?user \<and> AutoTranscriptionEnabled ?user \<and>
      selectProfile fullQueueEnv ?user = Some ?profile \<and>
      fst (jobRepo_Update fullQueueEnv ?w (applyProfile ?job ?profile)) = None \<and>
      taskQueue_EnqueueJob fullQueueEnv (TranscriptionJob.ID ?job) = Some (Other ''queue is full'')"
    by (simp add: fullQueueEnv_def quietEnv_def selectProfile_def jobRepo_Update_def)
  from enqueue_failure_rolls_back[of ?w ?job fullQueueEnv 7 ?user ?profile "Other ''queue is full''",
      THEN mp, OF h0, THEN conjunct2, THEN mp, OF h1]
  have "maybeQueueAutoTranscription fullQueueEnv ?w 7 ?job =
          (?w\<lparr>jobs := map (\<lambda>j. if TranscriptionJob.ID j = TranscriptionJob.ID ?job
                               then (applyProfile ?job ?profile)\<lparr>Status := StatusUploaded\<rparr> else j)
                          (jobs ?w)\<rparr>,
           (applyProfile ?job ?profile)\<lparr>Status := StatusUploaded\<rparr>)"
    by (elim conjE)
  then show ?thesis by (simp add: applyProfile_def newJob_def)
qed

subsection \<open>Events of the watcher\<close>

lemma isWatchable_iff: "isWatchableAudioFile e path \<longleftrightarrow> supportedExtension e path"
  by (simp add: isWatchableAudioFile_def supportedExtension_def supportedMedia_def Let_def)

lemma create_is_create_or_write:
  assumes "(op :: 32 word) AND fsnotify_Create = fsnotify_Create"
  shows "op AND (fsnotify_Create OR fsnotify_Write) \<noteq> 0"
proof
  assume z: "op AND (fsnotify_Create OR fsnotify_Write) = 0"
  have "op AND fsnotify_Create = (op AND (fsnotify_Create OR fsnotify_Write)) AND fsnotify_Create"
    by (simp add: word_bw_assocs word_ao_absorbs)
  with z assms have "fsnotify_Create = 0" by simp
  then show False by (simp add: fsnotify_Create_def)
qed

lemma scheduleImport_scheduled:
  "scheduled w (fst (scheduleImport w r path)) (snd (scheduleImport w r path)) path"
  by (simp add: scheduled_def scheduleImport_def Let_def split: option.splits)

lemma scheduleImport_replaces:
  "(\<forall>t. timers r path = Some t \<and> t \<noteq> next_timer w \<longrightarrow> armed (fst (scheduleImport w r path)) t = None) \<and>
   (\<forall>t. t \<noteq> next_timer w \<and> timers r path \<noteq> Some t \<longrightarrow>
        armed (fst (scheduleImport w r path)) t = armed w t) \<and>
   (\<forall>p. p \<noteq> path \<longrightarrow> timers (snd (scheduleImport w r path)) p = timers r p)"
  by (auto simp: scheduleImport_def Let_def split: option.splits)

lemma handleEvent_file:
  assumes "Op ev AND (fsnotify_Create OR fsnotify_Write) \<noteq> 0"
    and "\<forall>info. os_Stat e (clock w) (Name ev) = Inr info \<longrightarrow> \<not> info_IsDir info"
  shows "handleEvent e w s r ev =
     (if supportedExtension e (Name ev)
      then (fst (scheduleImport w r (Name ev)), s, snd (scheduleImport w r (Name ev)))
      else (w, s, r))"
  using assms by (auto simp: handleEvent_def isWatchable_iff split: sum.splits prod.splits)

lemma not_scheduled_same: "\<not> scheduled w w r path"
  by (simp add: scheduled_def)

lemma handleEvent_unsupported:
  assumes "\<not> supportedExtension e (Name ev)"
  shows "watchersOnly w (fst (handleEvent e w s r ev)) \<and> snd (snd (handleEvent e w s r ev)) = r"
proof (cases "Op ev AND fsnotify_Create = fsnotify_Create \<and>
         (case os_Stat e (clock w) (Name ev) of
            Inl err \<Rightarrow> False
          | Inr info \<Rightarrow> info_IsDir info \<and> Recursive (folder r))")
  case True
  obtain res w1 s1 where a: "addWatchedPath e w s r (Name ev) = (res, w1, s1)"
    by (cases "addWatchedPath e w s r (Name ev)") auto
  from addWatchedPath_frame[OF a] have "watchersOnly w w1" by simp
  with True a show ?thesis by (cases res) (simp_all add: handleEvent_def)
next
  case False
  have "handleEvent e w s r ev = (w, s, r)"
    unfolding handleEvent_def if_not_P[OF False] using assms by (simp add: isWatchable_iff)
  then show ?thesis by (simp add: watchersOnly_refl)
qed

lemma watchersOnly_fields:
  "watchersOnly w w' \<Longrightarrow> armed w' = armed w \<and> next_timer w' = next_timer w \<and> jobs w' = jobs w \<and>
     files w' = files w \<and> queue w' = queue w \<and> folders w' = folders w \<and> clock w' = clock w"
  unfolding watchersOnly_def
  by (metis world.select_convs(1,2,3,4,5,8,9) world.surjective world.update_convs(6,7))

lemma importFile_unsupported:
  assumes "\<not> supportedExtension e path"
  shows "\<exists>err. importFile e w userID path = (Some err, w)"
  using assms by (simp add: importFile_def isWatchable_iff split: sum.splits)

text \<open>The importer leaves the pending timers as they are.\<close>

lemma jobRepo_Update_armed: "armed (snd (jobRepo_Update e w job)) = armed w"
  by (simp add: jobRepo_Update_def split: option.splits)

lemma jobRepo_Create_armed: "armed (snd (jobRepo_Create e w job)) = armed w"
  by (simp add: jobRepo_Create_def split: option.splits)

lemma taskQueue_Enqueue_armed: "armed (snd (taskQueue_Enqueue e w jobID)) = armed w"
  by (simp add: taskQueue_Enqueue_def split: option.splits)

lemma maybeQueue_armed: "armed (fst (maybeQueueAutoTranscription e w userID job)) = armed w"
proof (cases "\<exists>user profile. userRepo_FindByID e userID = Inr user \<and> AutoTranscriptionEnabled user \<and>
      selectProfile e user = Some profile")
  case False
  from maybeQueue_idle[OF False] show ?thesis by simp
next
  case True
  then obtain user profile where t: "userRepo_FindByID e userID = Inr user"
    "AutoTranscriptionEnabled user" "selectProfile e user = Some profile" by blast
  show ?thesis unfolding maybeQueue_triggered[OF t] by (simp split: option.splits)
qed

lemma importFile_armed: "armed (snd (importFile e w userID sourcePath)) = armed w"
proof (cases "os_Stat e (clock w) sourcePath")
  case (Inl err)
  then show ?thesis by (simp add: importFile_def)
next
  case (Inr info)
  show ?thesis
  proof (cases "info_IsDir info \<or> \<not> isWatchableAudioFile e sourcePath \<or> os_MkdirAll e (UploadDir e) \<noteq> None")
    case True
    with Inr show ?thesis by (auto simp: importFile_def)
  next
    case False
    define jobID where "jobID = uuid_New e (uuid_seq w)"
    define w0 where "w0 = w\<lparr>uuid_seq := Suc (uuid_seq w)\<rparr>"
    define destPath where "destPath = filepath_Join e (UploadDir e)
       (jobID @ strings_ToLower e (filepath_Ext sourcePath))"
    define job where "job = newJob jobID destPath (filepath_Base e sourcePath)"
    obtain res fs where cp: "copyFile e (files w0) sourcePath destPath = (res, fs)"
      by (cases "copyFile e (files w0) sourcePath destPath") auto
    obtain cres w2 where cr: "jobRepo_Create e (w0\<lparr>files := fs\<rparr>) job = (cres, w2)"
      by (cases "jobRepo_Create e (w0\<lparr>files := fs\<rparr>) job") auto
    have a2: "armed w2 = armed w"
      using jobRepo_Create_armed[of e "w0\<lparr>files := fs\<rparr>" job] cr by (simp add: w0_def)
    have "importFile e w userID sourcePath =
       (case res of
          Some err \<Rightarrow> (Some (Wrapped ''failed to copy file for import: '' err []), w0\<lparr>files := fs\<rparr>)
        | None \<Rightarrow>
            (case cres of
               Some err \<Rightarrow> (Some (Wrapped ''failed to create transcription job: '' err []),
                            w2\<lparr>files := (files w2)(destPath := None)\<rparr>)
             | None \<Rightarrow> (None, fst (maybeQueueAutoTranscription e w2 userID job))))"
      using Inr False cp cr
      by (simp add: importFile_def Let_def jobID_def[symmetric] w0_def[symmetric]
          destPath_def[symmetric] job_def[symmetric] split: option.splits)
    then show ?thesis using a2 by (simp add: maybeQueue_armed w0_def split: option.splits)
  qed
qed

lemma processCandidate_armed: "armed (fst (processCandidate e w s r path)) = armed w"
proof -
  obtain res now where wf: "waitForStableFile e (clock w) path = (res, now)"
    by (cases "waitForStableFile e (clock w) path") auto
  show ?thesis
  proof (cases res)
    case (Inl err)
    with wf show ?thesis by (simp add: processCandidate_def)
  next
    case (Inr sg)
    obtain ires w1 where im: "importFile e (w\<lparr>clock := now\<rparr>) (UserID (folder r)) path = (ires, w1)"
      by (cases "importFile e (w\<lparr>clock := now\<rparr>) (UserID (folder r)) path") auto
    from importFile_armed[of e "w\<lparr>clock := now\<rparr>" "UserID (folder r)" path] im
    have "armed w1 = armed w" by simp
    with wf Inr im show ?thesis by (simp add: processCandidate_def split: option.splits)
  qed
qed

text \<open>
  Claim C9. An event with the create or the write bit on a path that is not a directory
  schedules a debounced import of the path exactly when the extension of the path, in
  lower case, is in the media set; then the timer pending for the path is stopped and
  the new timer takes its place, other timers staying as they are. An event with
  neither bit is ignored. No event on a path with another extension starts, stops or
  changes a timer, and \<open>importFile\<close> itself refuses such a path and leaves the world
  as it is. That every pending timer is for a path with a supported extension is kept
  by every event and by every timer that fires, and a timer that fires processes the
  path it was started for: no import is attempted on another extension.
\<close>

theorem handleEvent_schedules_supported:
  "(Op ev AND (fsnotify_Create OR fsnotify_Write) \<noteq> 0 \<and>
      (\<forall>info. os_Stat e (clock w) (Name ev) = Inr info \<longrightarrow> \<not> info_IsDir info) \<longrightarrow>
      (scheduled w (fst (handleEvent e w s r ev)) (snd (snd (handleEvent e w s r ev))) (Name ev) \<longleftrightarrow>
         supportedExtension e (Name ev)) \<and>
      handleEvent e w s r ev =
        (if supportedExtension e (Name ev)
         then (fst (scheduleImport w r (Name ev)), s, snd (scheduleImport w r (Name ev)))
         else (w, s, r))) \<and>
   (Op ev AND (fsnotify_Create OR fsnotify_Write) = 0 \<longrightarrow> handleEvent e w s r ev = (w, s, r)) \<and>
   scheduled w (fst (scheduleImport w r path)) (snd (scheduleImport w r path)) path \<and>
   (\<forall>t. timers r path = Some t \<and> t \<noteq> next_timer w \<longrightarrow>
        armed (fst (scheduleImport w r path)) t = None) \<and>
   (\<forall>t. t \<noteq> next_timer w \<and> timers r path \<noteq> Some t \<longrightarrow>
        armed (fst (scheduleImport w r path)) t = armed w t) \<and>
   (\<forall>p. p \<noteq> path \<longrightarrow> timers (snd (scheduleImport w r path)) p = timers r p) \<and>
   (\<not> supportedExtension e (Name ev) \<longrightarrow>
      armed (fst (handleEvent e w s r ev)) = armed w \<and>
      next_timer (fst (handleEvent e w s r ev)) = next_timer w \<and>
      jobs (fst (handleEvent e w s r ev)) = jobs w \<and>
      files (fst (handleEvent e w s r ev)) = files w \<and>
      snd (snd (handleEvent e w s r ev)) = r) \<and>
   (\<not> supportedExtension e path \<longrightarrow> (\<exists>err. importFile e w userID path = (Some err, w))) \<and>
   (armedSupported e w \<longrightarrow>
      armedSupported e (fst (handleEvent e w s r ev)) \<and>
      armedSupported e (fst (timerFired e w s r t))) \<and>
   (armedSupported e w \<and> armed w t = Some (d, p) \<longrightarrow>
      supportedExtension e p \<and>
      timerFired e w s r t =
        (case processCandidate e (w\<lparr>armed := (armed w)(t := None)\<rparr>) s r p of
           (w1, s1, r1) \<Rightarrow> (w1, s1, r1\<lparr>timers := (timers r1)(p := None)\<rparr>)))"
proof (intro conjI impI)
  assume a: "Op ev AND (fsnotify_Create OR fsnotify_Write) \<noteq> 0 \<and>
      (\<forall>info. os_Stat e (clock w) (Name ev) = Inr info \<longrightarrow> \<not> info_IsDir info)"
  then have h: "handleEvent e w s r ev =
     (if supportedExtension e (Name ev)
      then (fst (scheduleImport w r (Name ev)), s, snd (scheduleImport w r (Name ev)))
      else (w, s, r))"
    using handleEvent_file[of ev e w s r] by blast
  show "handleEvent e w s r ev =
        (if supportedExtension e (Name ev)
         then (fst (scheduleImport w r (Name ev)), s, snd (scheduleImport w r (Name ev)))
         else (w, s, r))" by (rule h)
  show "scheduled w (fst (handleEvent e w s r ev)) (snd (snd (handleEvent e w s r ev))) (Name ev) \<longleftrightarrow>
         supportedExtension e (Name ev)"
    unfolding h by (simp add: scheduleImport_scheduled not_scheduled_same)
next
  assume z: "Op ev AND (fsnotify_Create OR fsnotify_Write) = 0"
  then have "Op ev AND fsnotify_Create \<noteq> fsnotify_Create"
    using create_is_create_or_write[of "Op ev"] by blast
  with z show "handleEvent e w s r ev = (w, s, r)" by (simp add: handleEvent_def)
next
  show "scheduled w (fst (scheduleImport w r path)) (snd (scheduleImport w r path)) path"
    by (rule scheduleImport_scheduled)
  show "\<forall>t. timers r path = Some t \<and> t \<noteq> next_timer w \<longrightarrow>
        armed (fst (scheduleImport w r path)) t = None"
    using scheduleImport_replaces[of r path w] by (elim conjE)
  show "\<forall>t. t \<noteq> next_timer w \<and> timers r path \<noteq> Some t \<longrightarrow>
        armed (fst (scheduleImport w r path)) t = armed w t"
    using scheduleImport_replaces[of r path w] by (elim conjE)
  show "\<forall>p. p \<noteq> path \<longrightarrow> timers (snd (scheduleImport w r path)) p = timers r p"
    using scheduleImport_replaces[of r path w] by (elim conjE)
next
  assume n: "\<not> supportedExtension e (Name ev)"
  from handleEvent_unsupported[OF n, of w s r]
  have f: "watchersOnly w (fst (handleEvent e w s r ev))" and r: "snd (snd (handleEvent e w s r ev)) = r"
    by simp_all
  from watchersOnly_fields[OF f] r
  show "armed (fst (handleEvent e w s r ev)) = armed w"
    and "next_timer (fst (handleEvent e w s r ev)) = next_timer w"
    and "jobs (fst (handleEvent e w s r ev)) = jobs w"
    and "files (fst (handleEvent e w s r ev)) = files w"
    and "snd (snd (handleEvent e w s r ev)) = r"
    by simp_all
next
  assume "\<not> supportedExtension e path"
  then show "\<exists>err. importFile e w userID path = (Some err, w)"
    by (rule importFile_unsupported)
next
  assume inv: "armedSupported e w"
  show "armedSupported e (fst (handleEvent e w s r ev))"
  proof (cases "supportedExtension e (Name ev)")
    case False
    from handleEvent_unsupported[OF False, of w s r]
    have "watchersOnly w (fst (handleEvent e w s r ev))" by simp
    from watchersOnly_fields[OF this] inv show ?thesis by (simp add: armedSupported_def)
  next
    case True
    show ?thesis
    proof (cases "Op ev AND fsnotify_Create = fsnotify_Create \<and>
         (case os_Stat e (clock w) (Name ev) of
            Inl err \<Rightarrow> False
          | Inr info \<Rightarrow> info_IsDir info \<and> Recursive (folder r))")
      case dir: True
      obtain res w1 s1 where a: "addWatchedPath e w s r (Name ev) = (res, w1, s1)"
        by (cases "addWatchedPath e w s r (Name ev)") auto
      from addWatchedPath_frame[OF a] have "watchersOnly w w1" by simp
      from watchersOnly_fields[OF this] have "armed w1 = armed w" by simp
      moreover have "fst (handleEvent e w s r ev) = w1"
        using dir a by (cases res) (simp_all add: handleEvent_def)
      ultimately show ?thesis using inv by (simp add: armedSupported_def)
    next
      case nodir: False
      have "fst (handleEvent e w s r ev) = w \<or>
            fst (handleEvent e w s r ev) = fst (scheduleImport w r (Name ev))"
        unfolding handleEvent_def if_not_P[OF nodir] by (simp split: prod.splits)
      moreover have "armedSupported e (fst (scheduleImport w r (Name ev)))"
        using inv True
        by (auto simp: armedSupported_def scheduleImport_def Let_def split: option.splits if_splits)
      ultimately show ?thesis using inv by auto
    qed
  qed
  show "armedSupported e (fst (timerFired e w s r t))"
  proof (cases "armed w t")
    case None
    with inv show ?thesis by (simp add: timerFired_def)
  next
    case (Some dp)
    obtain d p where dp: "dp = (d, p)" by (cases dp) auto
    have "armed (fst (timerFired e w s r t)) = (armed w)(t := None)"
      using Some dp processCandidate_armed[of e "w\<lparr>armed := (armed w)(t := None)\<rparr>" s r p]
      by (auto simp: timerFired_def split: prod.splits)
    with inv show ?thesis by (simp add: armedSupported_def)
  qed
next
  assume a: "armedSupported e w \<and> armed w t = Some (d, p)"
  then show "supportedExtension e p" by (auto simp: armedSupported_def)
  from a show "timerFired e w s r t =
        (case processCandidate e (w\<lparr>armed := (armed w)(t := None)\<rparr>) s r p of
           (w1, s1, r1) \<Rightarrow> (w1, s1, r1\<lparr>timers := (timers r1)(p := None)\<rparr>))"
    by (simp add: timerFired_def)
qed

lemma lowerBytes:
  "lowerByte CHR ''.'' = CHR ''.''" "lowerByte CHR ''M'' = CHR ''m''" "lowerByte CHR ''P'' = CHR ''p''"
  "lowerByte CHR ''3'' = CHR ''3''" "lowerByte CHR ''t'' = CHR ''t''" "lowerByte CHR ''x'' = CHR ''x''"
  by code_simp+

lemma song_supported: "supportedExtension e ''/music/Song.MP3''"
  by (simp add: supportedExtension_def supportedMedia_def filepath_Ext_def strings_ToLower_def
      lowerBytes)

lemma notes_unsupported: "\<not> supportedExtension e ''/music/notes.txt''"
  by (simp add: supportedExtension_def supportedMedia_def filepath_Ext_def strings_ToLower_def
      lowerBytes)

theorem handleEvent_schedules_supported_witness:
  "handleEvent quietEnv pendingWorld busyService pendingRunner
      \<lparr>Name = ''/music/Song.MP3'', Op = fsnotify_Write\<rparr> =
     (pendingWorld\<lparr>armed := [1 \<mapsto> (3 * second, ''/music/Song.MP3'')], next_timer := 2\<rparr>,
      busyService, pendingRunner\<lparr>timers := [''/music/Song.MP3'' \<mapsto> 1]\<rparr>) \<and>
   handleEvent quietEnv pendingWorld busyService pendingRunner
      \<lparr>Name = ''/music/notes.txt'', Op = fsnotify_Create\<rparr> =
     (pendingWorld, busyService, pendingRunner) \<and>
   handleEvent quietEnv pendingWorld busyService pendingRunner
      \<lparr>Name = ''/music/Song.MP3'', Op = fsnotify_Remove\<rparr> =
     (pendingWorld, busyService, pendingRunner) \<and>
   (\<exists>err. importFile quietEnv pendingWorld 7 ''/music/notes.txt'' = (Some err, pendingWorld)) \<and>
   armedSupported quietEnv (fst (handleEvent quietEnv pendingWorld busyService pendingRunner
      \<lparr>Name = ''/music/Song.MP3'', Op = fsnotify_Write\<rparr>)) \<and>
   supportedExtension quietEnv ''/music/Song.MP3''"
proof -
  let ?song = "\<lparr>Name = ''/music/Song.MP3'', Op = fsnotify_Write\<rparr>"
  let ?notes = "\<lparr>Name = ''/music/notes.txt'', Op = fsnotify_Create\<rparr>"
  let ?gone = "\<lparr>Name = ''/music/Song.MP3'', Op = fsnotify_Remove\<rparr>"
  have f1: "Op ?song AND (fsnotify_Create OR fsnotify_Write) \<noteq> 0 \<and>
      (\<forall>info. os_Stat quietEnv (clock pendingWorld) (Name ?song) = Inr info \<longrightarrow> \<not> info_IsDir info)"
    by (auto simp: fsnotify_Create_def fsnotify_Write_def quietEnv_def)
  have f2: "Op ?notes AND (fsnotify_Create OR fsnotify_Write) \<noteq> 0 \<and>
      (\<forall>info. os_Stat quietEnv (clock pendingWorld) (Name ?notes) = Inr info \<longrightarrow> \<not> info_IsDir info)"
    by (auto simp: fsnotify_Create_def fsnotify_Write_def quietEnv_def)
  have f3: "Op ?gone AND (fsnotify_Create OR fsnotify_Write) = 0"
    by (simp add: fsnotify_Create_def fsnotify_Write_def fsnotify_Remove_def)
  from handleEvent_schedules_supported[of ?song quietEnv pendingWorld busyService pendingRunner,
      THEN conjunct1, THEN mp, OF f1]
  have "handleEvent quietEnv pendingWorld busyService pendingRunner ?song =
      (fst (scheduleImport pendingWorld pendingRunner ''/music/Song.MP3''), busyService,
       snd (scheduleImport pendingWorld pendingRunner ''/music/Song.MP3''))"
    using song_supported by simp
  then have c1: "handleEvent quietEnv pendingWorld busyService pendingRunner ?song =
     (pendingWorld\<lparr>armed := [1 \<mapsto> (3 * second, ''/music/Song.MP3'')], next_timer := 2\<rparr>,
      busyService, pendingRunner\<lparr>timers := [''/music/Song.MP3'' \<mapsto> 1]\<rparr>)"
    by (simp add: scheduleImport_def pendingWorld_def pendingRunner_def fileDebounceDelay_def Let_def)
  from handleEvent_schedules_supported[of ?notes quietEnv pendingWorld busyService pendingRunner,
      THEN conjunct1, THEN mp, OF f2]
  have c2: "handleEvent quietEnv pendingWorld busyService pendingRunner ?notes =
      (pendingWorld, busyService, pendingRunner)"
    using notes_unsupported by simp
  from handleEvent_schedules_supported[of ?gone quietEnv pendingWorld busyService pendingRunner,
      THEN conjunct2, THEN conjunct1, THEN mp, OF f3]
  have c3: "handleEvent quietEnv pendingWorld busyService pendingRunner ?gone =
      (pendingWorld, busyService, pendingRunner)" .
  note rest = handleEvent_schedules_supported[of ?song quietEnv pendingWorld busyService pendingRunner
      "''/music/notes.txt''" 7 0 "3 * second" "''/music/Song.MP3''",
      THEN conjunct2, THEN conjunct2, THEN conjunct2, THEN conjunct2, THEN conjunct2,
      THEN conjunct2, THEN conjunct2]
  have c4: "\<exists>err. importFile quietEnv pendingWorld 7 ''/music/notes.txt'' = (Some err, pendingWorld)"
    using rest[THEN conjunct1] notes_unsupported by (rule mp)
  have inv: "armedSupported quietEnv pendingWorld"
    using song_supported by (simp add: armedSupported_def pendingWorld_def)
  from rest[THEN conjunct2, THEN conjunct1, THEN mp, OF inv]
  have c5: "armedSupported quietEnv (fst (handleEvent quietEnv pendingWorld busyService pendingRunner ?song))"
    by (rule conjunct1)
  have t0: "armedSupported quietEnv pendingWorld \<and>
      armed pendingWorld 0 = Some (3 * second, ''/music/Song.MP3'')"
    using inv by (simp add: pendingWorld_def)
  from rest[THEN conjunct2, THEN conjunct2, THEN mp, OF t0]
  have c6: "supportedExtension quietEnv ''/music/Song.MP3''" by (rule conjunct1)
  from c1 c2 c3 c4 c5 c6 show ?thesis by (intro conjI)
qed

subsection \<open>A failed import\<close>

lemma copyFile_ok:
  assumes "copyFile e fs src dst = (None, fs')"
  shows "fs' = fs(dst \<mapsto> fst (io_Copy e src))"
  using assms by (auto simp: copyFile_def split: option.splits prod.splits)

lemma jobRepo_Create_fails:
  assumes "fst (jobRepo_Create e w job) = Some err"
  shows "jobRepo_Create e w job = (Some err, w)"
  using assms by (auto simp: jobRepo_Create_def split: option.splits if_splits)

text \<open>
  Claim C10. When \<open>importFile\<close> has copied the source file to \<open>destPath\<close> in the
  upload directory and the creation of the job record fails with \<open>err\<close>, it returns
  the error that wraps \<open>err\<close>, and in the world it leaves the copy (which was there)
  is removed, every other file is as before, and there is no new job record and no new
  queue entry.
\<close>

theorem importFile_removes_copy:
  assumes "os_Stat e (clock w) sourcePath = Inr info" and "\<not> info_IsDir info"
    and "isWatchableAudioFile e sourcePath"
    and "os_MkdirAll e (UploadDir e) = None"
    and "destPath = filepath_Join e (UploadDir e)
           (uuid_New e (uuid_seq w) @ strings_ToLower e (filepath_Ext sourcePath))"
    and "copyFile e (files w) sourcePath destPath = (None, fs)"
    and "fst (jobRepo_Create e (w\<lparr>uuid_seq := Suc (uuid_seq w), files := fs\<rparr>)
           (newJob (uuid_New e (uuid_seq w)) destPath (filepath_Base e sourcePath))) = Some err"
  shows "fs destPath \<noteq> None \<and>
     (\<exists>w'. importFile e w userID sourcePath =
              (Some (Wrapped ''failed to create transcription job: '' err []), w') \<and>
        files w' destPath = None \<and> (\<forall>q. q \<noteq> destPath \<longrightarrow> files w' q = files w q) \<and>
        jobs w' = jobs w \<and> queue w' = queue w)"
proof -
  from copyFile_ok[OF assms(6)] have fs: "fs = (files w)(destPath \<mapsto> fst (io_Copy e sourcePath))" .
  from jobRepo_Create_fails[OF assms(7)]
  have cr: "jobRepo_Create e (w\<lparr>uuid_seq := Suc (uuid_seq w), files := fs\<rparr>)
           (newJob (uuid_New e (uuid_seq w)) destPath (filepath_Base e sourcePath)) =
        (Some err, w\<lparr>uuid_seq := Suc (uuid_seq w), files := fs\<rparr>)" .
  have "importFile e w userID sourcePath =
      (Some (Wrapped ''failed to create transcription job: '' err []),
       w\<lparr>uuid_seq := Suc (uuid_seq w), files := fs(destPath := None)\<rparr>)"
    using assms(1-4,6) cr unfolding assms(5)
    by (simp add: importFile_def Let_def)
  then show ?thesis using fs by simp
qed

theorem importFile_removes_copy_witness:
  "\<exists>w'. importFile noDatabaseEnv emptyWorld 7 ''/music/Song.MP3'' =
     (Some (Wrapped ''failed to create transcription job: '' (Other ''database is locked'') []), w') \<and>
     files w' ''uploads/u.mp3'' = None \<and> jobs w' = [] \<and> queue w' = []"
proof -
  note d = noDatabaseEnv_def quietEnv_def
  let ?dest = "''uploads/u.mp3''"
  have e: "strings_ToLower noDatabaseEnv (filepath_Ext ''/music/Song.MP3'') = ''.mp3''"
    by (simp add: filepath_Ext_def strings_ToLower_def lowerBytes)
  have h1: "os_Stat noDatabaseEnv (clock emptyWorld) ''/music/Song.MP3'' =
      Inr \<lparr>info_IsDir = False, info_Size = 10, info_ModTime = 5\<rparr>"
    by (simp add: d)
  have h2: "\<not> info_IsDir \<lparr>info_IsDir = False, info_Size = 10, info_ModTime = 5\<rparr>" by simp
  have h3: "isWatchableAudioFile noDatabaseEnv ''/music/Song.MP3''"
    using song_supported by (simp add: isWatchable_iff)
  have h4: "os_MkdirAll noDatabaseEnv (UploadDir noDatabaseEnv) = None" by (simp add: d)
  have h5: "?dest = filepath_Join noDatabaseEnv (UploadDir noDatabaseEnv)
           (uuid_New noDatabaseEnv (uuid_seq emptyWorld) @
            strings_ToLower noDatabaseEnv (filepath_Ext ''/music/Song.MP3''))"
    unfolding e by (simp add: d emptyWorld_def)
  have h6: "copyFile noDatabaseEnv (files emptyWorld) ''/music/Song.MP3'' ?dest =
      (None, [?dest \<mapsto> ''audio''])"
    by (simp add: copyFile_def d emptyWorld_def)
  have h7: "fst (jobRepo_Create noDatabaseEnv
           (emptyWorld\<lparr>uuid_seq := Suc (uuid_seq emptyWorld), files := [?dest \<mapsto> ''audio'']\<rparr>)
           (newJob (uuid_New noDatabaseEnv (uuid_seq emptyWorld)) ?dest
              (filepath_Base noDatabaseEnv ''/music/Song.MP3''))) = Some (Other ''database is locked'')"
    by (simp add: jobRepo_Create_def d)
  from importFile_removes_copy[OF h1 h2 h3 h4 h5 h6 h7, of 7]
  obtain w' where r: "importFile noDatabaseEnv emptyWorld 7 ''/music/Song.MP3'' =
              (Some (Wrapped ''failed to create transcription job: '' (Other ''database is locked'') []), w')"
    and f: "files w' ?dest = None" and j: "jobs w' = jobs emptyWorld" and q: "queue w' = queue emptyWorld"
    by (elim conjE exE)
  from j q have "jobs w' = []" "queue w' = []" by (simp_all add: emptyWorld_def)
  with r f show ?thesis by (intro exI[of _ w'] conjI)
qed

end
